theory Spec2Isabelle
  imports Main "HOL-Library.AList"
begin

section \<open>The scheduler benchmark: dev/airflow_perf/scheduler_dag_execution_timing.py\<close>

text \<open>
  The script wraps an executor in \<^verbatim>\<open>ShortCircuitExecutorMixin\<close>, which counts finished
  dag runs per watched dag and tells the scheduler job to stop once every watched dag
  has had its runs, and it drives that scheduler a number of times from \<^verbatim>\<open>main\<close>.
  The definitions below follow the Python source function by function. Python dictionaries
  are association lists in insertion order (\<open>AList.update\<close> assigns a key,
  \<open>AList.delete\<close> pops it), exceptions are values of \<open>py_error\<close>, and every function
  that mutates an object returns the object as the mutation leaves it.
\<close>

subsection \<open>The rows of the metadata database\<close>

type_synonym dag_id = string
type_synonym task_id = string
type_synonym run_id = string

text \<open>A logical date is a point in time; the script only compares two of them for equality.\<close>

type_synonym logical_date = int

text \<open>
  The states of a task instance. The enumeration \<^verbatim>\<open>TaskInstanceState\<close> is declared
  outside the script, which names only its member \<^verbatim>\<open>SUCCESS\<close>; a task instance that
  has no state yet carries \<open>None\<close>.
\<close>

datatype task_instance_state =
  REMOVED | SCHEDULED | QUEUED | RUNNING | SUCCESS | RESTARTING | FAILED
  | UP_FOR_RETRY | UP_FOR_RESCHEDULE | UPSTREAM_FAILED | SKIPPED | DEFERRED

record dag_model =
  dm_dag_id :: dag_id
  is_paused :: bool

record dag_run =
  dr_dag_id :: dag_id
  dr_run_id :: run_id
  dr_logical_date :: logical_date

record task_instance =
  ti_dag_id :: dag_id
  ti_run_id :: run_id
  ti_task_id :: task_id
  ti_state :: "task_instance_state option"

text \<open>The three tables the script reads and writes through a database session.\<close>

record session =
  dag_model_table :: "dag_model list"
  dag_run_table :: "dag_run list"
  task_instance_table :: "task_instance list"

text \<open>
  Modelled from the spec: \<^verbatim>\<open>DagRun.find\<close> is declared outside the script. The
  persistence collaborator supports "lookup of a run by (workflow id, logical timestamp)";
  the script indexes the result with \<^verbatim>\<open>[0]\<close>, so the result is the sequence of the
  matching rows, empty when no run is found.
\<close>

definition DagRun_find :: "session \<Rightarrow> dag_id \<Rightarrow> logical_date \<Rightarrow> dag_run list" where
  "DagRun_find db dag_id logical_date =
     filter (\<lambda>r. dr_dag_id r = dag_id \<and> dr_logical_date r = logical_date) (dag_run_table db)"

text \<open>
  Modelled from the spec: \<^verbatim>\<open>DagRun.get_task_instances\<close> is declared outside the script.
  The persistence collaborator supports "enumeration of a run's task instances and their
  states"; the rows are read from the database at the time of the call, also for a run
  object that was fetched earlier.
\<close>

definition get_task_instances :: "session \<Rightarrow> dag_run \<Rightarrow> task_instance list" where
  "get_task_instances db run =
     filter (\<lambda>t. ti_dag_id t = dr_dag_id run \<and> ti_run_id t = dr_run_id run)
       (task_instance_table db)"

subsection \<open>ShortCircuitExecutorMixin\<close>

datatype py_error = IndexError | AttributeError | UnboundLocalError

text \<open>
  \<^verbatim>\<open>Namespace(waiting_for=..., runs={})\<close>: the runs still to finish for one dag, and the
  cache of the \<^verbatim>\<open>DagRun\<close> rows already looked up, by logical date.
\<close>

record namespace =
  waiting_for :: int
  runs :: "(logical_date \<times> dag_run) list"

text \<open>The scheduler job runner; the mixin writes its field \<^verbatim>\<open>num_runs\<close> only.\<close>

record job_runner =
  num_runs :: int

text \<open>The two warnings the mixin logs, with the number the second one is formatted with.\<close>

datatype log_record = STOPPING_SCHEDULER | WAITING_ON_RUNS int

text \<open>
  The executor object: \<open>base\<close> is the state of the executor class the mixin is mixed
  into (chosen at run time, so its type is a parameter), \<open>job_runner\<close> is the class
  attribute that starts as \<^verbatim>\<open>None\<close> and that \<^verbatim>\<open>main\<close> assigns, and \<open>log_warnings\<close>
  collects what \<^verbatim>\<open>self.log.warning\<close> was called with.
\<close>

record 'b executor =
  base :: 'b
  num_runs_per_dag :: int
  dags_to_watch :: "(dag_id \<times> namespace) list"
  job_runner :: "job_runner option"
  log_warnings :: "log_record list"

text \<open>
  \<^verbatim>\<open>reset\<close>: the dictionary comprehension assigns the keys in the order of
  \<open>dag_ids_to_watch\<close>; a dag id that occurs twice keeps its first position.
\<close>

definition reset :: "dag_id list \<Rightarrow> 'b executor \<Rightarrow> 'b executor" where
  "reset dag_ids_to_watch self =
     self\<lparr>dags_to_watch :=
       fold (\<lambda>dag_id d. AList.update dag_id
               \<lparr>waiting_for = num_runs_per_dag self, runs = []\<rparr> d)
         dag_ids_to_watch []\<rparr>"

text \<open>
  \<^verbatim>\<open>__init__\<close>: \<open>b\<close> is the base executor as its own constructor leaves it.
\<close>

definition init :: "'b \<Rightarrow> dag_id list \<Rightarrow> int \<Rightarrow> 'b executor" where
  "init b dag_ids_to_watch n =
     reset dag_ids_to_watch
       \<lparr>base = b, num_runs_per_dag = n, dags_to_watch = [], job_runner = None,
        log_warnings = []\<rparr>"

text \<open>The key of a task instance, a 4-tuple as line 71 unpacks it.\<close>

type_synonym task_instance_key = "dag_id \<times> task_id \<times> logical_date \<times> int"

text \<open>
  Lines 79 to 84: the run comes from the cache, or from the database, and then it is
  stored in the cache. A \<^verbatim>\<open>DagRun\<close> object is truthy, so \<^verbatim>\<open>not run\<close> holds exactly
  when the cache has no entry. \<^verbatim>\<open>[0]\<close> on an empty result raises \<^verbatim>\<open>IndexError\<close>,
  before anything is stored.
\<close>

definition lookup_run ::
  "session \<Rightarrow> dag_id \<Rightarrow> logical_date \<Rightarrow> namespace \<Rightarrow> py_error + (dag_run \<times> namespace)" where
  "lookup_run db dag_id logical_date entry =
     (case map_of (runs entry) logical_date of
        Some run \<Rightarrow> Inr (run, entry)
      | None \<Rightarrow>
          (case DagRun_find db dag_id logical_date of
             [] \<Rightarrow> Inl IndexError
           | run # _ \<Rightarrow>
               Inr (run, entry\<lparr>runs := AList.update logical_date run (runs entry)\<rparr>)))"

text \<open>Line 86: \<^verbatim>\<open>all(t.state == TaskInstanceState.SUCCESS for t in run.get_task_instances())\<close>.\<close>

definition all_success :: "session \<Rightarrow> dag_run \<Rightarrow> bool" where
  "all_success db run =
     list_all (\<lambda>t. ti_state t = Some SUCCESS) (get_task_instances db run)"

text \<open>Lines 97 to 99: the warning with the sum of \<^verbatim>\<open>waiting_for\<close> over the watched dags.\<close>

definition warn_waiting :: "'b executor \<Rightarrow> 'b executor" where
  "warn_waiting self =
     self\<lparr>log_warnings := log_warnings self @
       [WAITING_ON_RUNS (sum_list (map (\<lambda>(dag_id, entry). waiting_for entry)
                                    (dags_to_watch self)))]\<rparr>"

text \<open>
  Lines 87 to 91: the run leaves the cache, the counter goes down by one, and the dag
  leaves the dictionary when its counter is zero after that.
\<close>

definition run_finished ::
  "dag_id \<Rightarrow> logical_date \<Rightarrow> namespace \<Rightarrow> (dag_id \<times> namespace) list
     \<Rightarrow> (dag_id \<times> namespace) list" where
  "run_finished dag_id logical_date entry d =
     (let entry1 = entry\<lparr>runs := AList.delete logical_date (runs entry)\<rparr>;
          entry2 = entry1\<lparr>waiting_for := waiting_for entry1 - 1\<rparr>;
          d2 = AList.update dag_id entry2 d
      in if waiting_for entry2 = 0 then AList.delete dag_id d2 else d2)"

text \<open>
  Lines 93 to 96: with no dag left the mixin logs the warning and sets \<^verbatim>\<open>num_runs\<close> of
  the job runner to 1; assigning the field on \<^verbatim>\<open>None\<close> raises \<^verbatim>\<open>AttributeError\<close>,
  after the warning.
\<close>

definition stop_scheduler :: "'b executor \<Rightarrow> py_error option \<times> 'b executor" where
  "stop_scheduler self =
     (let self1 = self\<lparr>log_warnings := log_warnings self @ [STOPPING_SCHEDULER]\<rparr>
      in case job_runner self1 of
           None \<Rightarrow> (Some AttributeError, self1)
         | Some jr \<Rightarrow> (None, self1\<lparr>job_runner := Some (jr\<lparr>num_runs := 1\<rparr>)\<rparr>))"

text \<open>
  \<^verbatim>\<open>change_state\<close>. The handler of the base class, \<open>super_change_state\<close>, is outside
  the script and is a parameter, a function on the state of the base executor that
  returns normally; \<open>db\<close> is the database as it is when the call is made.
  The result is the exception the call raised, if any, and the executor as the call
  leaves it. \<open>entry1\<close> is the entry of the dag after lines 79 to 84: the entry
  itself on a cache hit, the entry with the run stored on a miss.
\<close>

definition change_state ::
  "(task_instance_key \<Rightarrow> task_instance_state \<Rightarrow> 'b \<Rightarrow> 'b) \<Rightarrow> session
     \<Rightarrow> task_instance_key \<Rightarrow> task_instance_state \<Rightarrow> 'b executor
     \<Rightarrow> py_error option \<times> 'b executor" where
  "change_state super_change_state db key state self0 =
     (let self = self0\<lparr>base := super_change_state key state (base self0)\<rparr>
      in case key of (dag_id, _, logical_date, _) \<Rightarrow>
        (case map_of (dags_to_watch self) dag_id of
           None \<Rightarrow> (None, self)
         | Some entry \<Rightarrow>
             (case lookup_run db dag_id logical_date entry of
                Inl e \<Rightarrow> (Some e, self)
              | Inr (run, entry1) \<Rightarrow>
                  let self1 = self\<lparr>dags_to_watch :=
                                AList.update dag_id entry1 (dags_to_watch self)\<rparr>
                  in if all_success db run then
                       let self2 = self1\<lparr>dags_to_watch :=
                                     run_finished dag_id logical_date entry1
                                       (dags_to_watch self1)\<rparr>
                       in if dags_to_watch self2 = [] then stop_scheduler self2
                          else (None, warn_waiting self2)
                     else (None, warn_waiting self1))))"

subsection \<open>The database helpers of the script\<close>

text \<open>
  The dag object of the dag bag, with what the script reads of it:
  \<open>dag_default_args_end_date\<close> is \<^verbatim>\<open>dag.default_args.get("end_date")\<close>, and
  \<open>dag_next_dagrun_info\<close> is the method of that name, which is declared outside the
  script: from the data interval of the last run (or \<^verbatim>\<open>None\<close>) it gives the next run
  of the schedule, or \<^verbatim>\<open>None\<close> when the schedule has no further run.
\<close>

record dag_run_info =
  info_logical_date :: logical_date
  info_data_interval :: "logical_date \<times> logical_date"

record dag =
  dag_dag_id :: dag_id
  dag_end_date :: "logical_date option"
  dag_default_args_end_date :: "logical_date option"
  dag_tasks :: "task_id list"
  dag_next_dagrun_info :: "(logical_date \<times> logical_date) option \<Rightarrow> dag_run_info option"

text \<open>
  \<^verbatim>\<open>reset_dag\<close>: the three statements of lines 138 to 140, an update of the
  \<^verbatim>\<open>is_paused\<close> column and two deletions, each on the rows of the dag.
\<close>

definition reset_dag :: "dag \<Rightarrow> session \<Rightarrow> session" where
  "reset_dag dag session =
     (let dag_id = dag_dag_id dag;
          session1 = session\<lparr>dag_model_table :=
             map (\<lambda>m. if dm_dag_id m = dag_id then m\<lparr>is_paused := False\<rparr> else m)
               (dag_model_table session)\<rparr>;
          session2 = session1\<lparr>dag_run_table :=
             filter (\<lambda>r. dr_dag_id r \<noteq> dag_id) (dag_run_table session1)\<rparr>
      in session2\<lparr>task_instance_table :=
             filter (\<lambda>t. ti_dag_id t \<noteq> dag_id) (task_instance_table session2)\<rparr>)"

definition pause_all_dags :: "session \<Rightarrow> session" where
  "pause_all_dags session =
     session\<lparr>dag_model_table := map (\<lambda>m. m\<lparr>is_paused := True\<rparr>) (dag_model_table session)\<rparr>"

subsection \<open>What \<^verbatim>\<open>main\<close> takes from the rest of Airflow\<close>

text \<open>
  The state \<^verbatim>\<open>main\<close> works on while it runs the scheduler: the database, the
  executor, and the job runner that its variable \<^verbatim>\<open>job_runner\<close> is bound to (the one
  \<^verbatim>\<open>code_to_test\<close> runs).
\<close>

record 'b harness =
  h_session :: session
  h_executor :: "'b executor"
  h_job_runner :: job_runner

text \<open>
  The collaborators that are declared outside the script are the fields of one record:
  \<^item> \<open>get_dag\<close> is \<^verbatim>\<open>dagbag.get_dag\<close>, \<^verbatim>\<open>None\<close> for a dag id the bag does not have;
  \<^item> \<open>sync_to_db\<close> is \<^verbatim>\<open>dag.sync_to_db\<close>;
  \<^item> \<open>create_dagrun\<close> is \<^verbatim>\<open>dag.create_dagrun\<close> with the run id and the logical date
    of lines 172 to 182;
  \<^item> \<open>run_id_of\<close> formats the run id of line 173, and \<open>str_of_date\<close> is \<^verbatim>\<open>str\<close> on a
    date, as the f-string of lines 271 and 272 applies it;
  \<^item> \<open>load_executor\<close> stands for \<^verbatim>\<open>ExecutorLoader.load_executor\<close> followed by the
    constructor of the class it finds: the exception raised, or the base executor as
    constructed;
  \<^item> \<open>new_job_runner\<close> is a \<^verbatim>\<open>SchedulerJobRunner\<close> as constructed;
  \<^item> \<open>run_job\<close> is one run of the scheduler loop (line 298) together with the clock
    that times it: the exception raised, or the state it leaves and the elapsed time.
\<close>

record ('b, 'd) airflow =
  get_dag :: "dag_id \<Rightarrow> dag option"
  sync_to_db :: "dag \<Rightarrow> session \<Rightarrow> session"
  create_dagrun :: "dag \<Rightarrow> run_id \<Rightarrow> logical_date \<Rightarrow> session \<Rightarrow> session"
  run_id_of :: "logical_date \<Rightarrow> run_id"
  str_of_date :: "logical_date \<Rightarrow> string"
  load_executor :: "string \<Rightarrow> py_error + 'b"
  new_job_runner :: job_runner
  run_job :: "'b harness \<Rightarrow> py_error + ('b harness \<times> 'd)"

text \<open>
  \<^verbatim>\<open>create_dag_runs\<close>: the loop of lines 169 to 183 with \<open>n\<close> rounds to go. Reading
  \<^verbatim>\<open>next_info.logical_date\<close> on \<^verbatim>\<open>None\<close> raises \<^verbatim>\<open>AttributeError\<close>.
\<close>

fun create_dag_runs_loop ::
  "('b, 'd) airflow \<Rightarrow> dag \<Rightarrow> nat \<Rightarrow> (logical_date \<times> logical_date) option \<Rightarrow> session
     \<Rightarrow> py_error + session" where
  "create_dag_runs_loop af dag 0 last_dagrun_data_interval session = Inr session"
| "create_dag_runs_loop af dag (Suc n) last_dagrun_data_interval session =
     (case dag_next_dagrun_info dag last_dagrun_data_interval of
        None \<Rightarrow> Inl AttributeError
      | Some next_info \<Rightarrow>
          create_dag_runs_loop af dag n (Some (info_data_interval next_info))
            (create_dagrun af dag (run_id_of af (info_logical_date next_info))
               (info_logical_date next_info) session))"

definition create_dag_runs ::
  "('b, 'd) airflow \<Rightarrow> dag \<Rightarrow> int \<Rightarrow> session \<Rightarrow> py_error + session" where
  "create_dag_runs af dag n session = create_dag_runs_loop af dag (nat n) None session"

subsection \<open>\<^verbatim>\<open>main\<close>\<close>

text \<open>
  What ends the process before \<^verbatim>\<open>main\<close> returns: \<^verbatim>\<open>sys.exit(message)\<close>, or an
  exception that nothing catches.
\<close>

datatype failure = SystemExit string | Raised py_error

text \<open>
  The exit status of the process: the interpreter prints the message of
  \<^verbatim>\<open>sys.exit(message)\<close> or the traceback of the exception, and exits with status 1.
\<close>

fun exit_status :: "failure \<Rightarrow> int" where
  "exit_status (SystemExit message) = 1"
| "exit_status (Raised e) = 1"

text \<open>
  Lines 265 and 266: \<open>n\<close> more steps along the schedule; reading
  \<^verbatim>\<open>next_info.data_interval\<close> on \<^verbatim>\<open>None\<close> raises \<^verbatim>\<open>AttributeError\<close>.
\<close>

fun advance_dagrun_info :: "dag \<Rightarrow> nat \<Rightarrow> dag_run_info option \<Rightarrow> py_error + dag_run_info option" where
  "advance_dagrun_info dag 0 next_info = Inr next_info"
| "advance_dagrun_info dag (Suc n) next_info =
     (case next_info of
        None \<Rightarrow> Inl AttributeError
      | Some info \<Rightarrow>
          advance_dagrun_info dag n (dag_next_dagrun_info dag (Some (info_data_interval info))))"

text \<open>Lines 263 to 266: the run the end date is compared with.\<close>

definition last_dagrun_info :: "dag \<Rightarrow> int \<Rightarrow> py_error + dag_run_info option" where
  "last_dagrun_info dag n =
     advance_dagrun_info dag (nat (n - 1)) (dag_next_dagrun_info dag None)"

text \<open>
  Line 268: \<^verbatim>\<open>dag.end_date or dag.default_args.get("end_date")\<close>; a date is truthy, so
  the second operand is taken exactly when \<^verbatim>\<open>dag.end_date\<close> is \<^verbatim>\<open>None\<close>.
\<close>

definition configured_end_date :: "dag \<Rightarrow> logical_date option" where
  "configured_end_date dag =
     (case dag_end_date dag of Some d \<Rightarrow> Some d | None \<Rightarrow> dag_default_args_end_date dag)"

text \<open>Lines 270 to 273: the message of the exit.\<close>

definition end_date_message ::
  "('b, 'd) airflow \<Rightarrow> dag_id \<Rightarrow> logical_date option \<Rightarrow> logical_date \<Rightarrow> string" where
  "end_date_message af dag_id end_date expected =
     ''DAG '' @ dag_id @ '' has incorrect end_date (''
       @ (case end_date of None \<Rightarrow> ''None'' | Some d \<Rightarrow> str_of_date af d)
       @ '') for number of runs! It should be '' @ str_of_date af expected"

text \<open>
  Lines 258 to 277, the body of the loop over \<open>dag_ids\<close>. A dag id that the bag does
  not have gives \<^verbatim>\<open>None\<close>, and the call of \<^verbatim>\<open>sync_to_db\<close> on it raises
  \<^verbatim>\<open>AttributeError\<close>.
\<close>

definition setup_dag ::
  "('b, 'd) airflow \<Rightarrow> int \<Rightarrow> bool \<Rightarrow> dag_id \<Rightarrow> session \<times> dag list
     \<Rightarrow> failure + session \<times> dag list" where
  "setup_dag af n pre_create_dag_runs dag_id sd =
     (case sd of (session, dags) \<Rightarrow>
       (case get_dag af dag_id of
          None \<Rightarrow> Inl (Raised AttributeError)
        | Some dag \<Rightarrow>
            let session1 = sync_to_db af dag session;
                dags1 = dags @ [dag];
                session2 = reset_dag dag session1
            in (case last_dagrun_info dag n of
                 Inl e \<Rightarrow> Inl (Raised e)
               | Inr None \<Rightarrow> Inl (Raised AttributeError)
               | Inr (Some next_info) \<Rightarrow>
                   (if configured_end_date dag \<noteq> Some (info_logical_date next_info)
                    then Inl (SystemExit (end_date_message af dag_id (configured_end_date dag)
                                            (info_logical_date next_info)))
                    else if pre_create_dag_runs
                    then (case create_dag_runs af dag n session2 of
                            Inl e \<Rightarrow> Inl (Raised e)
                          | Inr session3 \<Rightarrow> Inr (session3, dags1))
                    else Inr (session2, dags1)))))"

text \<open>Line 257: the loop over \<open>dag_ids\<close>, which the first failure leaves.\<close>

fun setup_dags ::
  "('b, 'd) airflow \<Rightarrow> int \<Rightarrow> bool \<Rightarrow> dag_id list \<Rightarrow> session \<times> dag list
     \<Rightarrow> failure + session \<times> dag list" where
  "setup_dags af n pre_create_dag_runs [] sd = Inr sd"
| "setup_dags af n pre_create_dag_runs (dag_id # dag_ids) sd =
     (case setup_dag af n pre_create_dag_runs dag_id sd of
        Inl f \<Rightarrow> Inl f
      | Inr sd1 \<Rightarrow> setup_dags af n pre_create_dag_runs dag_ids sd1)"

text \<open>
  \<^verbatim>\<open>get_executor_under_test\<close>, with the construction of the base executor from the
  class it returns. The branch for \<^verbatim>\<open>"MockExecutor"\<close> binds \<^verbatim>\<open>executor\<close> and leaves
  \<^verbatim>\<open>executor_cls\<close> unbound, so the class statement of line 117 raises
  \<^verbatim>\<open>UnboundLocalError\<close>.
\<close>

definition get_executor_under_test :: "('b, 'd) airflow \<Rightarrow> string \<Rightarrow> py_error + 'b" where
  "get_executor_under_test af dotted_path =
     (if dotted_path = ''MockExecutor'' then Inl UnboundLocalError
      else load_executor af dotted_path)"

text \<open>
  Lines 301 to 308, the start of the body of the loop over \<open>range(repeat)\<close>:
  \<^verbatim>\<open>not count\<close> holds exactly when \<open>count\<close> is 0. The new job runner is bound to the
  variable of \<^verbatim>\<open>main\<close>; the executor gets the attribute \<^verbatim>\<open>scheduler_job\<close>, which
  nothing reads, and keeps its \<^verbatim>\<open>job_runner\<close>. Until then the variable and the
  attribute of the executor refer to one object, which nothing writes before the first
  trial; from then on they are two objects, as the two fields of the state are.
\<close>

definition trial_setup ::
  "('b, 'd) airflow \<Rightarrow> dag_id list \<Rightarrow> dag list \<Rightarrow> nat \<Rightarrow> 'b harness \<Rightarrow> 'b harness" where
  "trial_setup af dag_ids dags count h =
     (if count = 0
      then h\<lparr>h_session := fold reset_dag dags (h_session h),
             h_executor := reset dag_ids (h_executor h),
             h_job_runner := new_job_runner af\<rparr>
      else h)"

text \<open>Lines 300 to 315: the trials, each appending its elapsed time to the list \<^verbatim>\<open>times\<close>.\<close>

fun trials ::
  "('b, 'd) airflow \<Rightarrow> dag_id list \<Rightarrow> dag list \<Rightarrow> nat list \<Rightarrow> 'b harness \<times> 'd list
     \<Rightarrow> failure + 'b harness \<times> 'd list" where
  "trials af dag_ids dags [] ht = Inr ht"
| "trials af dag_ids dags (count # counts) ht =
     (case ht of (h, ts) \<Rightarrow>
       (case run_job af (trial_setup af dag_ids dags count h) of
          Inl e \<Rightarrow> Inl (Raised e)
        | Inr (h1, elapsed) \<Rightarrow> trials af dag_ids dags counts (h1, ts @ [elapsed])))"

text \<open>
  \<^verbatim>\<open>main\<close>, from the session of line 255 to the report: \<open>session0\<close> is the database
  when the script starts. The environment variables of lines 235 to 244 and the profiler
  of lines 288 to 291 configure other processes and are not part of the model. Of the
  report (lines 317 to 326) the model keeps \<^verbatim>\<open>times[0]\<close>, which raises
  \<^verbatim>\<open>IndexError\<close> when no trial was run; the mean and the deviation it prints are
  floating-point numbers and are left out. The result is the failure that ended the
  process, or the final state and the elapsed times.
\<close>

definition main ::
  "('b, 'd) airflow \<Rightarrow> int \<Rightarrow> int \<Rightarrow> bool \<Rightarrow> string \<Rightarrow> dag_id list \<Rightarrow> session
     \<Rightarrow> failure + 'b harness \<times> 'd list" where
  "main af n repeat pre_create_dag_runs executor_class dag_ids session0 =
     (case setup_dags af n pre_create_dag_runs dag_ids (pause_all_dags session0, []) of
        Inl f \<Rightarrow> Inl f
      | Inr (session, dags) \<Rightarrow>
          (case get_executor_under_test af executor_class of
             Inl e \<Rightarrow> Inl (Raised e)
           | Inr b \<Rightarrow>
               let job_runner0 = new_job_runner af;
                   executor = (init b dag_ids n)\<lparr>job_runner := Some job_runner0\<rparr>
               in (case trials af dag_ids dags [0 ..< nat repeat]
                          (\<lparr>h_session = session, h_executor = executor,
                            h_job_runner = job_runner0\<rparr>, []) of
                     Inl f \<Rightarrow> Inl f
                   | Inr (h, ts) \<Rightarrow>
                       if ts = [] then Inl (Raised IndexError) else Inr (h, ts))))"

subsection \<open>Successive state changes\<close>

text \<open>
  The scheduler loop calls \<^verbatim>\<open>change_state\<close> once for each event the executor reports,
  each call reading the database as it is at that time; an exception leaves the loop.
\<close>

fun change_states ::
  "(task_instance_key \<Rightarrow> task_instance_state \<Rightarrow> 'b \<Rightarrow> 'b)
     \<Rightarrow> (session \<times> task_instance_key \<times> task_instance_state) list \<Rightarrow> 'b executor
     \<Rightarrow> py_error option \<times> 'b executor" where
  "change_states super_change_state [] self = (None, self)"
| "change_states super_change_state ((db, key, state) # events) self =
     (case change_state super_change_state db key state self of
        (Some e, self1) \<Rightarrow> (Some e, self1)
      | (None, self1) \<Rightarrow> change_states super_change_state events self1)"

subsection \<open>Notions the properties are stated with\<close>

text \<open>
  The condition of line 86 as a call of \<^verbatim>\<open>change_state\<close> with this key meets it on
  this executor: the dag is watched, lines 79 to 84 give a run, and every task instance
  of that run is in the state \<^verbatim>\<open>SUCCESS\<close>.
\<close>

definition run_complete :: "session \<Rightarrow> task_instance_key \<Rightarrow> 'b executor \<Rightarrow> bool" where
  "run_complete db key self =
     (case key of (dag_id, _, logical_date, _) \<Rightarrow>
       (case map_of (dags_to_watch self) dag_id of
          None \<Rightarrow> False
        | Some entry \<Rightarrow>
            (case lookup_run db dag_id logical_date entry of
               Inl e \<Rightarrow> False
             | Inr (run, entry1) \<Rightarrow> all_success db run)))"

text \<open>
  The database has the run the key refers to, and every task instance of that run is in
  the state \<^verbatim>\<open>SUCCESS\<close>.
\<close>

definition run_succeeded :: "session \<Rightarrow> task_instance_key \<Rightarrow> bool" where
  "run_succeeded db key =
     (case key of (dag_id, _, logical_date, _) \<Rightarrow>
       (case DagRun_find db dag_id logical_date of
          [] \<Rightarrow> False
        | run # _ \<Rightarrow> all_success db run))"

text \<open>The events of a sequence that belong to one dag.\<close>

definition events_of ::
  "dag_id \<Rightarrow> (session \<times> task_instance_key \<times> task_instance_state) list
     \<Rightarrow> (session \<times> task_instance_key \<times> task_instance_state) list" where
  "events_of dag_id events = filter (\<lambda>(db, key, state). fst key = dag_id) events"

text \<open>
  The number of calls of a sequence, made on this executor, that are for the dag and in
  which the condition of line 86 holds.
\<close>

fun finished_calls ::
  "(task_instance_key \<Rightarrow> task_instance_state \<Rightarrow> 'b \<Rightarrow> 'b) \<Rightarrow> dag_id
     \<Rightarrow> (session \<times> task_instance_key \<times> task_instance_state) list \<Rightarrow> 'b executor \<Rightarrow> nat" where
  "finished_calls super_change_state dag_id [] self = 0"
| "finished_calls super_change_state dag_id ((db, key, state) # events) self =
     (if fst key = dag_id \<and> run_complete db key self then 1 else 0)
     + (case change_state super_change_state db key state self of
          (Some e, self1) \<Rightarrow> 0
        | (None, self1) \<Rightarrow> finished_calls super_change_state dag_id events self1)"

text \<open>How often the executor has logged that it stops the scheduler (lines 94 and 95).\<close>

definition stops_issued :: "'b executor \<Rightarrow> nat" where
  "stops_issued self = length (filter (\<lambda>r. r = STOPPING_SCHEDULER) (log_warnings self))"

subsection \<open>Concrete inputs\<close>

text \<open>
  One dag \<open>dag_a\<close> with one run at logical date 0, in three states of the database: the
  run is not there yet, the run is there and its only task instance succeeded, the run
  is there and has no task instance.
\<close>

definition ex_run :: dag_run where
  "ex_run = \<lparr>dr_dag_id = ''dag_a'', dr_run_id = ''run_0'', dr_logical_date = 0\<rparr>"

definition ex_db_no_run :: session where
  "ex_db_no_run =
     \<lparr>dag_model_table = [\<lparr>dm_dag_id = ''dag_a'', is_paused = True\<rparr>],
      dag_run_table = [], task_instance_table = []\<rparr>"

definition ex_db_success :: session where
  "ex_db_success =
     \<lparr>dag_model_table = [\<lparr>dm_dag_id = ''dag_a'', is_paused = True\<rparr>],
      dag_run_table = [ex_run],
      task_instance_table =
        [\<lparr>ti_dag_id = ''dag_a'', ti_run_id = ''run_0'', ti_task_id = ''task_1'',
          ti_state = Some SUCCESS\<rparr>]\<rparr>"

definition ex_db_no_tasks :: session where
  "ex_db_no_tasks =
     \<lparr>dag_model_table = [\<lparr>dm_dag_id = ''dag_a'', is_paused = True\<rparr>],
      dag_run_table = [ex_run], task_instance_table = []\<rparr>"

definition ex_key :: task_instance_key where
  "ex_key = (''dag_a'', ''task_1'', 0, 1)"

text \<open>A base executor without state of its own, whose handler does nothing.\<close>

definition ex_super_change_state :: "task_instance_key \<Rightarrow> task_instance_state \<Rightarrow> unit \<Rightarrow> unit" where
  "ex_super_change_state key state b = b"

text \<open>
  The executor as lines 281 to 284 build it for \<open>dag_a\<close> and \<open>n\<close> runs, with a job
  runner attached.
\<close>

definition ex_executor :: "int \<Rightarrow> unit executor" where
  "ex_executor n = (init () [''dag_a''] n)\<lparr>job_runner := Some \<lparr>num_runs = - 1\<rparr>\<rparr>"

text \<open>
  A second run of \<open>dag_a\<close>, at logical date 1, and a database in which both runs have
  their only task instance successful.
\<close>

definition ex_run_1 :: dag_run where
  "ex_run_1 = \<lparr>dr_dag_id = ''dag_a'', dr_run_id = ''run_1'', dr_logical_date = 1\<rparr>"

definition ex_db_two_runs :: session where
  "ex_db_two_runs =
     \<lparr>dag_model_table = [\<lparr>dm_dag_id = ''dag_a'', is_paused = False\<rparr>],
      dag_run_table = [ex_run, ex_run_1],
      task_instance_table =
        [\<lparr>ti_dag_id = ''dag_a'', ti_run_id = ''run_0'', ti_task_id = ''task_1'',
          ti_state = Some SUCCESS\<rparr>,
         \<lparr>ti_dag_id = ''dag_a'', ti_run_id = ''run_1'', ti_task_id = ''task_1'',
          ti_state = Some SUCCESS\<rparr>]\<rparr>"

definition ex_events :: "(session \<times> task_instance_key \<times> task_instance_state) list" where
  "ex_events =
     [(ex_db_two_runs, (''dag_a'', ''task_1'', 0, 1), SUCCESS),
      (ex_db_two_runs, (''dag_a'', ''task_1'', 1, 1), SUCCESS)]"

text \<open>
  Three dags on a daily schedule whose first run has logical date 1: \<open>dag_a\<close> and
  \<open>dag_b\<close> with end dates that one run does not reach, \<open>dag_c\<close> with the end date of
  its first run, given in its default arguments.
\<close>

definition ex_next_dagrun_info :: "(logical_date \<times> logical_date) option \<Rightarrow> dag_run_info option" where
  "ex_next_dagrun_info last_interval =
     (case last_interval of
        None \<Rightarrow> Some \<lparr>info_logical_date = 1, info_data_interval = (1, 2)\<rparr>
      | Some (a, b) \<Rightarrow> Some \<lparr>info_logical_date = b, info_data_interval = (b, b + 1)\<rparr>)"

definition ex_dag_a :: dag where
  "ex_dag_a =
     \<lparr>dag_dag_id = ''dag_a'', dag_end_date = Some 5, dag_default_args_end_date = None,
      dag_tasks = [''task_1''], dag_next_dagrun_info = ex_next_dagrun_info\<rparr>"

definition ex_dag_b :: dag where
  "ex_dag_b =
     \<lparr>dag_dag_id = ''dag_b'', dag_end_date = Some 7, dag_default_args_end_date = None,
      dag_tasks = [''task_1''], dag_next_dagrun_info = ex_next_dagrun_info\<rparr>"

definition ex_dag_c :: dag where
  "ex_dag_c =
     \<lparr>dag_dag_id = ''dag_c'', dag_end_date = None, dag_default_args_end_date = Some 1,
      dag_tasks = [''task_1''], dag_next_dagrun_info = ex_next_dagrun_info\<rparr>"

definition ex_str_of_date :: "logical_date \<Rightarrow> string" where
  "ex_str_of_date d =
     (if d = 1 then ''2021-01-01'' else if d = 5 then ''2021-01-05''
      else if d = 7 then ''2021-01-07'' else ''another day'')"

text \<open>
  Collaborators for these dags: the bag holds the three dags, their rows are in the
  database already, and a run of the scheduler changes nothing and takes no time.
\<close>

definition ex_airflow :: "(unit, nat) airflow" where
  "ex_airflow =
     \<lparr>get_dag = map_of [(''dag_a'', ex_dag_a), (''dag_b'', ex_dag_b), (''dag_c'', ex_dag_c)],
      sync_to_db = (\<lambda>dag session. session),
      create_dagrun = (\<lambda>dag run_id logical_date session.
         session\<lparr>dag_run_table := dag_run_table session @
           [\<lparr>dr_dag_id = dag_dag_id dag, dr_run_id = run_id,
             dr_logical_date = logical_date\<rparr>]\<rparr>),
      run_id_of = (\<lambda>logical_date. ''scheduled__'' @ ex_str_of_date logical_date),
      str_of_date = ex_str_of_date,
      load_executor = (\<lambda>dotted_path. Inr ()),
      new_job_runner = \<lparr>num_runs = - 1\<rparr>,
      run_job = (\<lambda>h. Inr (h, 0))\<rparr>"

text \<open>
  The state of \<^verbatim>\<open>main\<close> when a first trial for one run of \<open>dag_a\<close> is over: the run
  and its task instance are in the database, and the executor has seen the state change
  that finished the run.
\<close>

definition ex_harness_after_trial :: "unit harness" where
  "ex_harness_after_trial =
     \<lparr>h_session = ex_db_success,
      h_executor = snd (change_state ex_super_change_state ex_db_success ex_key SUCCESS
                          (ex_executor 1)),
      h_job_runner = \<lparr>num_runs = - 1\<rparr>\<rparr>"

text \<open>
  The run of \<open>dag_a\<close> at logical date 0 with two task instances, both successful: the
  executor reports one state change for each of them.
\<close>

definition ex_db_two_tasks :: session where
  "ex_db_two_tasks =
     \<lparr>dag_model_table = [\<lparr>dm_dag_id = ''dag_a'', is_paused = False\<rparr>],
      dag_run_table = [ex_run],
      task_instance_table =
        [\<lparr>ti_dag_id = ''dag_a'', ti_run_id = ''run_0'', ti_task_id = ''task_1'',
          ti_state = Some SUCCESS\<rparr>,
         \<lparr>ti_dag_id = ''dag_a'', ti_run_id = ''run_0'', ti_task_id = ''task_2'',
          ti_state = Some SUCCESS\<rparr>]\<rparr>"

definition ex_events_one_run :: "(session \<times> task_instance_key \<times> task_instance_state) list" where
  "ex_events_one_run =
     [(ex_db_two_tasks, (''dag_a'', ''task_1'', 0, 1), SUCCESS),
      (ex_db_two_tasks, (''dag_a'', ''task_2'', 0, 1), SUCCESS)]"

text \<open>
  A trial for one run of \<open>dag_c\<close>: the database before the script starts, the database
  when the run has finished, and a run of the scheduler that creates the run, has its
  task succeed and reports the state change to the executor.
\<close>

definition ex_db_c_start :: session where
  "ex_db_c_start =
     \<lparr>dag_model_table = [\<lparr>dm_dag_id = ''dag_c'', is_paused = False\<rparr>],
      dag_run_table = [], task_instance_table = []\<rparr>"

definition ex_db_c_success :: session where
  "ex_db_c_success =
     \<lparr>dag_model_table = [\<lparr>dm_dag_id = ''dag_c'', is_paused = False\<rparr>],
      dag_run_table = [\<lparr>dr_dag_id = ''dag_c'', dr_run_id = ''run_1'', dr_logical_date = 1\<rparr>],
      task_instance_table =
        [\<lparr>ti_dag_id = ''dag_c'', ti_run_id = ''run_1'', ti_task_id = ''task_1'',
          ti_state = Some SUCCESS\<rparr>]\<rparr>"

definition ex_run_job :: "unit harness \<Rightarrow> py_error + (unit harness \<times> nat)" where
  "ex_run_job h =
     Inr (h\<lparr>h_session := ex_db_c_success,
            h_executor := snd (change_state ex_super_change_state ex_db_c_success
                                 (''dag_c'', ''task_1'', 1, 1) SUCCESS (h_executor h))\<rparr>,
          0)"

definition ex_airflow_running :: "(unit, nat) airflow" where
  "ex_airflow_running = ex_airflow\<lparr>run_job := ex_run_job\<rparr>"

section \<open>Properties\<close>

subsection \<open>Dictionaries\<close>

lemma fold_update_map_of:
  "map_of (fold (\<lambda>k d. AList.update k v d) ks acc) x =
     (if x \<in> set ks then Some v else map_of acc x)"
  by (induction ks arbitrary: acc) (auto simp: update_conv')

lemma fold_update_keys:
  "fst ` set (fold (\<lambda>k d. AList.update k v d) ks acc) = set ks \<union> fst ` set acc"
  by (induction ks arbitrary: acc) (auto simp: dom_update)

lemma fold_update_distinct:
  "distinct (map fst acc) \<Longrightarrow> distinct (map fst (fold (\<lambda>k d. AList.update k v d) ks acc))"
  by (induction ks arbitrary: acc) (auto simp: distinct_update)

lemma map_of_run_finished:
  "map_of (run_finished dag_id ld entry d) x =
     (if x = dag_id
      then (if waiting_for entry - 1 = 0 then None
            else Some \<lparr>waiting_for = waiting_for entry - 1,
                       runs = AList.delete ld (runs entry)\<rparr>)
      else map_of d x)"
  by (simp add: run_finished_def Let_def update_conv' delete_conv')

subsection \<open>The four ways through \<^verbatim>\<open>change_state\<close>\<close>

lemma change_state_untracked:
  "map_of (dags_to_watch s) dag_id = None \<Longrightarrow>
   change_state sc db (dag_id, t, ld, n) st s =
     (None, s\<lparr>base := sc (dag_id, t, ld, n) st (base s)\<rparr>)"
  by (simp add: change_state_def)

lemma change_state_no_run:
  "map_of (dags_to_watch s) dag_id = Some entry \<Longrightarrow>
   lookup_run db dag_id ld entry = Inl e \<Longrightarrow>
   change_state sc db (dag_id, t, ld, n) st s =
     (Some e, s\<lparr>base := sc (dag_id, t, ld, n) st (base s)\<rparr>)"
  by (simp add: change_state_def)

lemma change_state_waiting:
  "map_of (dags_to_watch s) dag_id = Some entry \<Longrightarrow>
   lookup_run db dag_id ld entry = Inr (run, entry1) \<Longrightarrow>
   \<not> all_success db run \<Longrightarrow>
   change_state sc db (dag_id, t, ld, n) st s =
     (None, warn_waiting (s\<lparr>base := sc (dag_id, t, ld, n) st (base s),
                           dags_to_watch := AList.update dag_id entry1 (dags_to_watch s)\<rparr>))"
  by (simp add: change_state_def)

lemma change_state_finished:
  "map_of (dags_to_watch s) dag_id = Some entry \<Longrightarrow>
   lookup_run db dag_id ld entry = Inr (run, entry1) \<Longrightarrow>
   all_success db run \<Longrightarrow>
   change_state sc db (dag_id, t, ld, n) st s =
     (let s2 = s\<lparr>base := sc (dag_id, t, ld, n) st (base s),
                 dags_to_watch := run_finished dag_id ld entry1
                                    (AList.update dag_id entry1 (dags_to_watch s))\<rparr>
      in if dags_to_watch s2 = [] then stop_scheduler s2 else (None, warn_waiting s2))"
  by (simp add: change_state_def Let_def)

subsection \<open>Resetting the tracker\<close>

text \<open>
  C6. Whatever the executor held before (any counters, any cached runs, an empty
  dictionary), \<^verbatim>\<open>reset\<close> leaves \<open>dags_to_watch\<close> with exactly one entry for each dag
  id given, each with \<open>waiting_for\<close> equal to \<open>num_runs_per_dag\<close> and an empty cache
  of runs; the dictionary held before has no influence on the result, and resetting
  twice is the same as resetting once.
\<close>

theorem reset_rebuilds_watch_set:
  "map_of (dags_to_watch (reset ids s)) d =
      (if d \<in> set ids then Some \<lparr>waiting_for = num_runs_per_dag s, runs = []\<rparr> else None)
   \<and> distinct (map fst (dags_to_watch (reset ids s)))
   \<and> set (map fst (dags_to_watch (reset ids s))) = set ids
   \<and> reset ids (s\<lparr>dags_to_watch := w\<rparr>) = reset ids s
   \<and> reset ids (reset ids s) = reset ids s"
  by (simp add: reset_def fold_update_map_of fold_update_keys fold_update_distinct)

subsection \<open>A state change for a run the database does not have yet\<close>

lemma ex_executor_unfold:
  "ex_executor n =
     \<lparr>base = (), num_runs_per_dag = n,
      dags_to_watch = [(''dag_a'', \<lparr>waiting_for = n, runs = []\<rparr>)],
      job_runner = Some \<lparr>num_runs = - 1\<rparr>, log_warnings = []\<rparr>"
  by (simp add: ex_executor_def init_def reset_def)

lemma run_not_found_raises:
  assumes "map_of (dags_to_watch s) dag_id = Some entry"
      and "map_of (runs entry) ld = None"
      and "DagRun_find db dag_id ld = []"
  shows "change_state sc db (dag_id, t, ld, n) st s =
           (Some IndexError, s\<lparr>base := sc (dag_id, t, ld, n) st (base s)\<rparr>)"
  using assms by (simp add: change_state_def lookup_run_def)

text \<open>
  C1. The claim is that a state change whose run the database cannot locate yet is
  deferred: the call returns normally and leaves the tracker as it was. In the script
  the lookup of line 83 takes element 0 of the empty result, so the call for the watched
  dag \<open>dag_a\<close> raises \<^verbatim>\<open>IndexError\<close>; the tracker is left as it was.
\<close>

theorem change_state_run_not_found_raises:
  "change_state ex_super_change_state ex_db_no_run ex_key SUCCESS (ex_executor 1)
     = (Some IndexError, ex_executor 1)"
  by (simp add: ex_executor_unfold ex_key_def change_state_def lookup_run_def
        DagRun_find_def ex_db_no_run_def ex_super_change_state_def)

subsection \<open>What a state change does to the dictionary\<close>


lemma lookup_run_Inr:
  "lookup_run db dag_id ld entry = Inr (run, entry1) \<Longrightarrow>
     waiting_for entry1 = waiting_for entry
   \<and> AList.delete ld (runs entry1) = AList.delete ld (runs entry)
   \<and> map_of (runs entry1) ld = Some run"
  by (auto simp: lookup_run_def delete_update_same update_conv' split: option.splits list.splits)

lemma lookup_run_evicted:
  "map_of (runs entry) ld = None \<Longrightarrow> DagRun_find db dag_id ld = run # rest \<Longrightarrow>
   lookup_run db dag_id ld entry = Inr (run, entry\<lparr>runs := AList.update ld run (runs entry)\<rparr>)"
  by (simp add: lookup_run_def)

text \<open>On a cache hit line 84 is not reached; writing the entry back changes nothing.\<close>

lemma cache_hit_writes_nothing:
  assumes "map_of d dag_id = Some entry" and "map_of (runs entry) ld = Some run"
  shows "lookup_run db dag_id ld entry = Inr (run, entry) \<and> AList.update dag_id entry d = d"
  using assms by (simp add: lookup_run_def update_triv)

lemma dags_to_watch_stop_scheduler [simp]:
  "dags_to_watch (snd (stop_scheduler s)) = dags_to_watch s"
  by (simp add: stop_scheduler_def Let_def split: option.splits)

lemma dags_to_watch_warn_waiting [simp]:
  "dags_to_watch (warn_waiting s) = dags_to_watch s"
  by (simp add: warn_waiting_def)

lemma dags_to_watch_change_state:
  "dags_to_watch (snd (change_state sc db (dag_id, t, ld, n) st s)) =
     (case map_of (dags_to_watch s) dag_id of
        None \<Rightarrow> dags_to_watch s
      | Some entry \<Rightarrow>
          (case lookup_run db dag_id ld entry of
             Inl e \<Rightarrow> dags_to_watch s
           | Inr (run, entry1) \<Rightarrow>
               if all_success db run
               then run_finished dag_id ld entry1 (AList.update dag_id entry1 (dags_to_watch s))
               else AList.update dag_id entry1 (dags_to_watch s)))"
  by (simp add: change_state_def Let_def split: option.splits sum.splits prod.splits)

lemma finished_entry:
  assumes "map_of (dags_to_watch s) dag_id = Some entry"
      and "lookup_run db dag_id ld entry = Inr (run, entry1)"
      and "all_success db run"
  shows "map_of (dags_to_watch (snd (change_state sc db (dag_id, t, ld, n) st s))) x =
           (if x = dag_id
            then (if waiting_for entry - 1 = 0 then None
                  else Some \<lparr>waiting_for = waiting_for entry - 1,
                             runs = AList.delete ld (runs entry)\<rparr>)
            else map_of (dags_to_watch s) x)"
  using assms lookup_run_Inr [OF assms(2)]
  by (simp add: dags_to_watch_change_state map_of_run_finished update_conv')

lemma all_success_no_tasks: "get_task_instances db run = [] \<Longrightarrow> all_success db run"
  by (simp add: all_success_def)

lemma ex_find_no_tasks: "DagRun_find ex_db_no_tasks ''dag_a'' 0 = [ex_run]"
  by (simp add: DagRun_find_def ex_db_no_tasks_def ex_run_def)

lemma ex_find_success: "DagRun_find ex_db_success ''dag_a'' 0 = [ex_run]"
  by (simp add: DagRun_find_def ex_db_success_def ex_run_def)

lemma ex_tasks_no_tasks: "get_task_instances ex_db_no_tasks ex_run = []"
  by (simp add: get_task_instances_def ex_db_no_tasks_def)

lemma ex_all_success: "all_success ex_db_success ex_run"
  by (simp add: all_success_def get_task_instances_def ex_db_success_def ex_run_def)

subsection \<open>A run without task instances\<close>

text \<open>
  C7. When a state change refers to a run of a watched dag that has no task instance
  (the run being in the cache or found in the database), the check of line 86 holds
  vacuously: in that call the run leaves the cache and \<open>waiting_for\<close> of the dag goes
  down by one, the dag leaving the dictionary if that makes it zero.
\<close>

theorem zero_task_run_is_complete:
  assumes "map_of (dags_to_watch s) dag_id = Some entry"
      and "lookup_run db dag_id ld entry = Inr (run, entry1)"
      and "get_task_instances db run = []"
  shows "map_of (dags_to_watch (snd (change_state sc db (dag_id, t, ld, n) st s))) dag_id =
           (if waiting_for entry - 1 = 0 then None
            else Some \<lparr>waiting_for = waiting_for entry - 1,
                       runs = AList.delete ld (runs entry)\<rparr>)
         \<and> map_of (AList.delete ld (runs entry)) ld = None"
  using finished_entry [OF assms(1,2) all_success_no_tasks [OF assms(3)]]
  by (simp add: delete_conv')


theorem zero_task_run_is_complete_witness:
  "map_of (dags_to_watch (ex_executor 3)) ''dag_a'' = Some \<lparr>waiting_for = 3, runs = []\<rparr>
   \<and> lookup_run ex_db_no_tasks ''dag_a'' 0 \<lparr>waiting_for = 3, runs = []\<rparr>
       = Inr (ex_run, \<lparr>waiting_for = 3, runs = [(0, ex_run)]\<rparr>)
   \<and> get_task_instances ex_db_no_tasks ex_run = []
   \<and> map_of (dags_to_watch (snd (change_state ex_super_change_state ex_db_no_tasks
                                      (''dag_a'', ''task_1'', 0, 1) SUCCESS (ex_executor 3))))
        ''dag_a'' = Some \<lparr>waiting_for = 2, runs = []\<rparr>"
proof -
  have h1: "map_of (dags_to_watch (ex_executor 3)) ''dag_a'' = Some \<lparr>waiting_for = 3, runs = []\<rparr>"
    by (simp add: ex_executor_unfold)
  have h2: "lookup_run ex_db_no_tasks ''dag_a'' 0 \<lparr>waiting_for = 3, runs = []\<rparr>
       = Inr (ex_run, \<lparr>waiting_for = 3, runs = [(0, ex_run)]\<rparr>)"
    by (simp add: lookup_run_def ex_find_no_tasks)
  show ?thesis
    using zero_task_run_is_complete [OF h1 h2 ex_tasks_no_tasks,
        of ex_super_change_state "''task_1''" 1 SUCCESS] h1 h2 ex_tasks_no_tasks
    by simp
qed

subsection \<open>A state change delivered twice\<close>

lemma fst_stop_scheduler:
  "job_runner s = Some jr \<Longrightarrow> fst (stop_scheduler s) = None"
  by (simp add: stop_scheduler_def Let_def)

lemma job_runner_stop_scheduler:
  "job_runner (snd (stop_scheduler s)) = map_option (\<lambda>jr. jr\<lparr>num_runs := 1\<rparr>) (job_runner s)"
  by (simp add: stop_scheduler_def Let_def split: option.splits)

lemma job_runner_change_state_None:
  "(job_runner (snd (change_state sc db key st s)) = None) = (job_runner s = None)"
  by (cases key) (simp add: change_state_def Let_def stop_scheduler_def warn_waiting_def
      split: option.splits sum.splits prod.splits)

lemma fst_change_state_finished:
  assumes "map_of (dags_to_watch s) dag_id = Some entry"
      and "lookup_run db dag_id ld entry = Inr (run, entry1)"
      and "job_runner s = Some jr"
  shows "fst (change_state sc db (dag_id, t, ld, n) st s) = None"
  using assms by (simp add: change_state_def Let_def fst_stop_scheduler)

lemma ex_lookup_success:
  "lookup_run ex_db_success ''dag_a'' 0 \<lparr>waiting_for = w, runs = []\<rparr>
     = Inr (ex_run, \<lparr>waiting_for = w, runs = [(0, ex_run)]\<rparr>)"
  by (simp add: lookup_run_def ex_find_success)

text \<open>
  The tracker keeps no record of the runs it has counted. When a state change for a run
  that was counted and evicted arrives, while the database has the run with all its task
  instances successful and the dag is still watched, the call fetches the run again,
  evicts it again and counts it again.
\<close>

lemma redelivery_counts_again:
  assumes tracked: "map_of (dags_to_watch s) dag_id = Some entry"
      and first: "lookup_run db dag_id ld entry = Inr (run, entry1)" "all_success db run"
      and still: "DagRun_find db2 dag_id ld = run2 # rest" "all_success db2 run2"
      and positive: "0 < waiting_for entry - 1"
      and runner: "job_runner s = Some jr"
  shows "fst (change_state sc db (dag_id, t, ld, n) st s) = None
       \<and> map_of (dags_to_watch (snd (change_state sc db (dag_id, t, ld, n) st s))) dag_id
           = Some \<lparr>waiting_for = waiting_for entry - 1, runs = AList.delete ld (runs entry)\<rparr>
       \<and> fst (change_state sc db2 (dag_id, t2, ld, n2) st2
                (snd (change_state sc db (dag_id, t, ld, n) st s))) = None
       \<and> map_of (dags_to_watch (snd (change_state sc db2 (dag_id, t2, ld, n2) st2
                (snd (change_state sc db (dag_id, t, ld, n) st s))))) dag_id
           = (if waiting_for entry - 2 = 0 then None
              else Some \<lparr>waiting_for = waiting_for entry - 2,
                         runs = AList.delete ld (runs entry)\<rparr>)"
proof -
  let ?s1 = "snd (change_state sc db (dag_id, t, ld, n) st s)"
  let ?e1 = "\<lparr>waiting_for = waiting_for entry - 1, runs = AList.delete ld (runs entry)\<rparr>"
  have r1: "fst (change_state sc db (dag_id, t, ld, n) st s) = None"
    by (rule fst_change_state_finished [OF tracked first(1) runner])
  have e1: "map_of (dags_to_watch ?s1) dag_id = Some ?e1"
    using finished_entry [OF tracked first, of sc t n st dag_id] positive by simp
  have miss: "map_of (runs ?e1) ld = None"
    by (simp add: delete_conv')
  have l2: "lookup_run db2 dag_id ld ?e1 = Inr (run2, ?e1\<lparr>runs := AList.update ld run2 (runs ?e1)\<rparr>)"
    by (rule lookup_run_evicted [OF miss still(1)])
  obtain jr1 where j1: "job_runner ?s1 = Some jr1"
    using job_runner_change_state_None [of sc db "(dag_id, t, ld, n)" st s] runner by auto
  have r2: "fst (change_state sc db2 (dag_id, t2, ld, n2) st2 ?s1) = None"
    by (rule fst_change_state_finished [OF e1 l2 j1])
  have e2: "map_of (dags_to_watch (snd (change_state sc db2 (dag_id, t2, ld, n2) st2 ?s1))) dag_id
           = (if waiting_for entry - 2 = 0 then None
              else Some \<lparr>waiting_for = waiting_for entry - 2,
                         runs = AList.delete ld (runs entry)\<rparr>)"
    using finished_entry [OF e1 l2 still(2), of sc t2 n2 st2 dag_id]
    by (simp add: delete_idem)
  show ?thesis using r1 e1 r2 e2 by simp
qed

lemma ex_find_two_tasks: "DagRun_find ex_db_two_tasks ''dag_a'' 0 = [ex_run]"
  by (simp add: DagRun_find_def ex_db_two_tasks_def ex_run_def)

lemma ex_all_success_two_tasks: "all_success ex_db_two_tasks ex_run"
  by (simp add: all_success_def get_task_instances_def ex_db_two_tasks_def ex_run_def)

lemma ex_one_run_step_1:
  "change_state ex_super_change_state ex_db_two_tasks (''dag_a'', ''task_1'', 0, 1) SUCCESS
     (ex_executor 2)
   = (None, (ex_executor 2)\<lparr>dags_to_watch := [(''dag_a'', \<lparr>waiting_for = 1, runs = []\<rparr>)],
                             log_warnings := [WAITING_ON_RUNS 1]\<rparr>)"
  by (simp add: ex_executor_unfold change_state_def lookup_run_def run_finished_def
      ex_find_two_tasks ex_all_success_two_tasks warn_waiting_def Let_def
      ex_super_change_state_def)

lemma ex_one_run_step_2:
  "change_state ex_super_change_state ex_db_two_tasks (''dag_a'', ''task_2'', 0, 1) SUCCESS
     ((ex_executor 2)\<lparr>dags_to_watch := [(''dag_a'', \<lparr>waiting_for = 1, runs = []\<rparr>)],
                      log_warnings := [WAITING_ON_RUNS 1]\<rparr>)
   = (None, (ex_executor 2)\<lparr>dags_to_watch := [],
                             job_runner := Some \<lparr>num_runs = 1\<rparr>,
                             log_warnings := [WAITING_ON_RUNS 1, STOPPING_SCHEDULER]\<rparr>)"
  by (simp add: ex_executor_unfold change_state_def lookup_run_def run_finished_def
      ex_find_two_tasks ex_all_success_two_tasks stop_scheduler_def Let_def
      ex_super_change_state_def)

text \<open>
  C2. The claim is that a second delivery of the terminal state change of a run that was
  already counted and evicted does not decrement the counter of the dag again. The
  script counts the run again: with three runs to wait for and the run still in the
  database, the same state change delivered twice leaves \<open>waiting_for = 2\<close> and then
  \<open>waiting_for = 1\<close>. By the same slip one run is counted once for each state change
  that arrives when all its task instances have succeeded: for a database with a single
  run of \<open>dag_a\<close>, with two successful task instances, and two runs to wait for, the
  two state changes empty the dictionary and stop the scheduler after one run, where the
  docstring of \<^verbatim>\<open>main\<close> says that the scheduler is shut down after the required number
  of dag runs have completed.
\<close>

theorem redelivery_is_counted_twice:
  "change_state ex_super_change_state ex_db_success ex_key SUCCESS (ex_executor 3)
     = (None, (ex_executor 3)\<lparr>dags_to_watch := [(''dag_a'', \<lparr>waiting_for = 2, runs = []\<rparr>)],
                               log_warnings := [WAITING_ON_RUNS 2]\<rparr>)
   \<and> change_state ex_super_change_state ex_db_success ex_key SUCCESS
       ((ex_executor 3)\<lparr>dags_to_watch := [(''dag_a'', \<lparr>waiting_for = 2, runs = []\<rparr>)],
                        log_warnings := [WAITING_ON_RUNS 2]\<rparr>)
     = (None, (ex_executor 3)\<lparr>dags_to_watch := [(''dag_a'', \<lparr>waiting_for = 1, runs = []\<rparr>)],
                               log_warnings := [WAITING_ON_RUNS 2, WAITING_ON_RUNS 1]\<rparr>)
   \<and> dag_run_table ex_db_two_tasks = [ex_run]
   \<and> change_states ex_super_change_state ex_events_one_run (ex_executor 2)
     = (None, (ex_executor 2)\<lparr>dags_to_watch := [],
                               job_runner := Some \<lparr>num_runs = 1\<rparr>,
                               log_warnings := [WAITING_ON_RUNS 1, STOPPING_SCHEDULER]\<rparr>)"
  by (simp add: ex_events_one_run_def ex_one_run_step_1 ex_one_run_step_2)
     (simp add: ex_executor_unfold ex_key_def change_state_def lookup_run_def run_finished_def
        ex_find_success ex_all_success warn_waiting_def Let_def ex_super_change_state_def
        ex_db_two_tasks_def)

subsection \<open>The counter of one dag\<close>

lemma map_of_change_state:
  "map_of (dags_to_watch (snd (change_state sc db (dag_id, t, ld, n) st s))) x =
     (if x \<noteq> dag_id then map_of (dags_to_watch s) x
      else (case map_of (dags_to_watch s) dag_id of
              None \<Rightarrow> None
            | Some entry \<Rightarrow>
                (case lookup_run db dag_id ld entry of
                   Inl e \<Rightarrow> Some entry
                 | Inr (run, entry1) \<Rightarrow>
                     if all_success db run
                     then (if waiting_for entry - 1 = 0 then None
                           else Some \<lparr>waiting_for = waiting_for entry - 1,
                                      runs = AList.delete ld (runs entry)\<rparr>)
                     else Some entry1)))"
proof (cases "map_of (dags_to_watch s) dag_id")
  case None
  then show ?thesis by (simp add: dags_to_watch_change_state)
next
  case (Some entry)
  show ?thesis
  proof (cases "lookup_run db dag_id ld entry")
    case (Inl e)
    with Some show ?thesis by (simp add: dags_to_watch_change_state)
  next
    case (Inr p)
    obtain run entry1 where p: "p = (run, entry1)" by (cases p)
    from lookup_run_Inr [OF Inr [unfolded p]] Some Inr p show ?thesis
      by (simp add: dags_to_watch_change_state map_of_run_finished update_conv')
  qed
qed

lemma counted_once:
  assumes "run_complete db (dag_id, t, ld, n) s"
      and "map_of (dags_to_watch s) dag_id = Some entry"
  shows "map_of (dags_to_watch (snd (change_state sc db (dag_id, t, ld, n) st s))) dag_id =
           (if waiting_for entry - 1 = 0 then None
            else Some \<lparr>waiting_for = waiting_for entry - 1,
                       runs = AList.delete ld (runs entry)\<rparr>)"
  using assms
  by (auto simp: map_of_change_state run_complete_def split: sum.splits)

lemma never_added:
  "map_of (dags_to_watch s) x = None \<Longrightarrow>
   map_of (dags_to_watch (snd (change_state sc db key st s))) x = None"
  by (cases key) (auto simp: map_of_change_state)

lemma never_increases:
  assumes "map_of (dags_to_watch s) x = Some e"
      and "map_of (dags_to_watch (snd (change_state sc db key st s))) x = Some e'"
  shows "waiting_for e' \<le> waiting_for e"
proof -
  obtain dag_id t ld n where key: "key = (dag_id, t, ld, n)" by (cases key)
  show ?thesis
  proof (cases "x = dag_id")
    case False
    with assms key show ?thesis by (simp add: map_of_change_state)
  next
    case True
    show ?thesis
    proof (cases "lookup_run db dag_id ld e")
      case (Inl err)
      with assms key True show ?thesis by (simp add: map_of_change_state)
    next
      case (Inr p)
      obtain run entry1 where p: "p = (run, entry1)" by (cases p)
      from lookup_run_Inr [OF Inr [unfolded p]] assms key True Inr p show ?thesis
        by (auto simp: map_of_change_state split: if_splits)
    qed
  qed
qed

lemma removed_iff:
  assumes "map_of (dags_to_watch s) x = Some e"
  shows "(map_of (dags_to_watch (snd (change_state sc db key st s))) x = None)
           = (x = fst key \<and> run_complete db key s \<and> waiting_for e - 1 = 0)"
proof -
  obtain dag_id t ld n where key: "key = (dag_id, t, ld, n)" by (cases key)
  show ?thesis
    using assms key
    by (auto simp: map_of_change_state run_complete_def split: sum.splits if_splits)
qed

lemma not_counted:
  assumes "\<not> (x = fst key \<and> run_complete db key s)"
  shows "map_option waiting_for (map_of (dags_to_watch (snd (change_state sc db key st s))) x)
           = map_option waiting_for (map_of (dags_to_watch s) x)"
proof -
  obtain dag_id t ld n where key: "key = (dag_id, t, ld, n)" by (cases key)
  show ?thesis
  proof (cases "x = dag_id")
    case False
    with key show ?thesis by (simp add: map_of_change_state)
  next
    case True
    show ?thesis
    proof (cases "map_of (dags_to_watch s) dag_id")
      case None
      with key True show ?thesis by (simp add: map_of_change_state)
    next
      case (Some entry)
      show ?thesis
      proof (cases "lookup_run db dag_id ld entry")
        case (Inl e)
        with key True Some show ?thesis by (simp add: map_of_change_state)
      next
        case (Inr p)
        obtain run entry1 where p: "p = (run, entry1)" by (cases p)
        from assms key True Some Inr p have "\<not> all_success db run"
          by (simp add: run_complete_def)
        with lookup_run_Inr [OF Inr [unfolded p]] key True Some Inr p show ?thesis
          by (simp add: map_of_change_state)
      qed
    qed
  qed
qed

subsection \<open>Sequences of state changes\<close>

lemma change_states_Cons_None:
  assumes "fst (change_states sc ((db, key, st) # evs) s) = None"
  shows "fst (change_state sc db key st s) = None
       \<and> change_states sc ((db, key, st) # evs) s
           = change_states sc evs (snd (change_state sc db key st s))"
  using assms by (cases "change_state sc db key st s") (auto split: option.splits)

lemma change_states_never_added:
  "map_of (dags_to_watch s) x = None \<Longrightarrow>
   map_of (dags_to_watch (snd (change_states sc evs s))) x = None"
proof (induction evs arbitrary: s)
  case Nil
  then show ?case by simp
next
  case (Cons ev evs)
  obtain db key st where ev: "ev = (db, key, st)" by (cases ev)
  have step: "map_of (dags_to_watch (snd (change_state sc db key st s))) x = None"
    by (rule never_added [OF Cons.prems])
  show ?case
  proof (cases "change_state sc db key st s")
    case (Pair r s1)
    with step have s1: "map_of (dags_to_watch s1) x = None" by simp
    show ?thesis
    proof (cases r)
      case None
      with Pair ev Cons.IH [OF s1] show ?thesis by simp
    next
      case (Some e)
      with Pair ev s1 show ?thesis by simp
    qed
  qed
qed

lemma run_succeeded_counted:
  assumes "map_of (dags_to_watch s) dag_id = Some \<lparr>waiting_for = w, runs = []\<rparr>"
      and "run_succeeded db (dag_id, t, ld, n)"
  shows "map_of (dags_to_watch (snd (change_state sc db (dag_id, t, ld, n) st s))) dag_id =
           (if w - 1 = 0 then None else Some \<lparr>waiting_for = w - 1, runs = []\<rparr>)"
  using assms
  by (auto simp: map_of_change_state run_succeeded_def lookup_run_def split: list.splits)

lemma countdown:
  assumes "map_of (dags_to_watch s) x = Some \<lparr>waiting_for = int m, runs = []\<rparr>"
      and "0 < m"
      and "\<forall>(db, key, st) \<in> set evs. fst key = x \<longrightarrow> run_succeeded db key"
      and "fst (change_states sc evs s) = None"
  shows "map_of (dags_to_watch (snd (change_states sc evs s))) x =
           (if m \<le> length (events_of x evs) then None
            else Some \<lparr>waiting_for = int m - int (length (events_of x evs)), runs = []\<rparr>)"
  using assms
proof (induction evs arbitrary: s m)
  case Nil
  then show ?case by (simp add: events_of_def)
next
  case (Cons ev evs)
  obtain db dag_id t ld n st where ev: "ev = (db, (dag_id, t, ld, n), st)"
    by (cases ev) auto
  let ?s1 = "snd (change_state sc db (dag_id, t, ld, n) st s)"
  from Cons.prems(4) ev
  have noerr: "fst (change_states sc evs ?s1) = None"
    and unfold: "change_states sc (ev # evs) s = change_states sc evs ?s1"
    using change_states_Cons_None [of sc db "(dag_id, t, ld, n)" st evs s] by simp_all
  from Cons.prems(3) have rest: "\<forall>(db, key, st) \<in> set evs. fst key = x \<longrightarrow> run_succeeded db key"
    by simp
  show ?case
  proof (cases "dag_id = x")
    case False
    then have same: "map_of (dags_to_watch ?s1) x = Some \<lparr>waiting_for = int m, runs = []\<rparr>"
      using Cons.prems(1) by (simp add: map_of_change_state)
    have "events_of x (ev # evs) = events_of x evs"
      using False ev by (simp add: events_of_def)
    with Cons.IH [OF same Cons.prems(2) rest noerr] unfold show ?thesis by simp
  next
    case True
    have len: "length (events_of x (ev # evs)) = Suc (length (events_of x evs))"
      using True ev by (simp add: events_of_def)
    from Cons.prems(3) ev True have ok: "run_succeeded db (x, t, ld, n)" by simp
    have step: "map_of (dags_to_watch ?s1) x =
           (if int m - 1 = 0 then None else Some \<lparr>waiting_for = int m - 1, runs = []\<rparr>)"
      using run_succeeded_counted [OF Cons.prems(1) ok, of sc st] True by simp
    show ?thesis
    proof (cases "m = 1")
      case True
      with step have "map_of (dags_to_watch ?s1) x = None" by simp
      from change_states_never_added [OF this, of sc evs] unfold len True show ?thesis
        by simp
    next
      case False
      with Cons.prems(2) obtain m' where m': "m = Suc m'" "0 < m'"
        by (cases m) auto
      with step have e1: "map_of (dags_to_watch ?s1) x = Some \<lparr>waiting_for = int m', runs = []\<rparr>"
        by simp
      from Cons.IH [OF e1 m'(2) rest noerr] unfold len m' show ?thesis
        by (auto simp: )
    qed
  qed
qed

lemma countdown_calls:
  assumes "map_of (dags_to_watch s) x = Some e"
      and "waiting_for e = int m"
      and "0 < m"
  shows "map_option waiting_for (map_of (dags_to_watch (snd (change_states sc evs s))) x) =
           (if m \<le> finished_calls sc x evs s then None
            else Some (int m - int (finished_calls sc x evs s)))"
  using assms
proof (induction evs arbitrary: s e m)
  case Nil
  then show ?case by simp
next
  case (Cons ev evs)
  obtain db dag_id t ld n st where ev: "ev = (db, (dag_id, t, ld, n), st)"
    by (cases ev) auto
  let ?key = "(dag_id, t, ld, n)"
  obtain r s1 where cs: "change_state sc db ?key st s = (r, s1)"
    by (cases "change_state sc db ?key st s")
  then have s1: "s1 = snd (change_state sc db ?key st s)" by simp
  show ?case
  proof (cases "x = dag_id \<and> run_complete db ?key s")
    case True
    then have x: "x = dag_id" and rc: "run_complete db ?key s" by simp_all
    from counted_once [OF rc Cons.prems(1) [unfolded x], of sc st] Cons.prems(2) s1 x
    have step: "map_of (dags_to_watch s1) x =
                  (if int m - 1 = 0 then None
                   else Some \<lparr>waiting_for = int m - 1, runs = AList.delete ld (runs e)\<rparr>)"
      by simp
    show ?thesis
    proof (cases "m = 1")
      case True
      with step have gone: "map_of (dags_to_watch s1) x = None" by simp
      from change_states_never_added [OF gone, of sc evs] gone cs ev True x rc
      show ?thesis by (cases r) simp_all
    next
      case False
      with Cons.prems(3) obtain m' where m': "m = Suc m'" "0 < m'"
        by (cases m) auto
      with step have e1: "map_of (dags_to_watch s1) x
                            = Some \<lparr>waiting_for = int m', runs = AList.delete ld (runs e)\<rparr>"
        by simp
      show ?thesis
      proof (cases r)
        case None
        from Cons.IH [OF e1 _ m'(2)] cs ev None x rc m' show ?thesis by simp
      next
        case (Some err)
        with e1 cs ev x rc m' show ?thesis by simp
      qed
    qed
  next
    case False
    from not_counted [of x ?key db s sc st] False s1 Cons.prems(1)
    obtain e1 where e1: "map_of (dags_to_watch s1) x = Some e1"
      and w1: "waiting_for e1 = waiting_for e"
      by auto
    show ?thesis
    proof (cases r)
      case None
      from Cons.IH [OF e1 _ Cons.prems(3)] w1 Cons.prems(2) cs ev None False
      show ?thesis by auto
    next
      case (Some err)
      with e1 w1 Cons.prems(2,3) cs ev False show ?thesis by auto
    qed
  qed
qed

subsection \<open>Two runs of one dag, evaluated\<close>

lemma reset_ex_executor: "reset [''dag_a''] (ex_executor n) = ex_executor n"
  by (simp add: ex_executor_unfold reset_def)

lemma ex_find_two_0: "DagRun_find ex_db_two_runs ''dag_a'' 0 = [ex_run]"
  by (simp add: DagRun_find_def ex_db_two_runs_def ex_run_def ex_run_1_def)

lemma ex_find_two_1: "DagRun_find ex_db_two_runs ''dag_a'' 1 = [ex_run_1]"
  by (simp add: DagRun_find_def ex_db_two_runs_def ex_run_def ex_run_1_def)

lemma ex_all_success_two_0: "all_success ex_db_two_runs ex_run"
  by (simp add: all_success_def get_task_instances_def ex_db_two_runs_def ex_run_def)

lemma ex_all_success_two_1: "all_success ex_db_two_runs ex_run_1"
  by (simp add: all_success_def get_task_instances_def ex_db_two_runs_def ex_run_1_def)

lemma ex_step_0:
  "change_state ex_super_change_state ex_db_two_runs (''dag_a'', ''task_1'', 0, 1) SUCCESS
     (ex_executor 2)
   = (None, (ex_executor 2)\<lparr>dags_to_watch := [(''dag_a'', \<lparr>waiting_for = 1, runs = []\<rparr>)],
                             log_warnings := [WAITING_ON_RUNS 1]\<rparr>)"
  by (simp add: ex_executor_unfold change_state_def lookup_run_def run_finished_def
      ex_find_two_0 ex_all_success_two_0 warn_waiting_def Let_def ex_super_change_state_def)

lemma ex_step_1:
  "change_state ex_super_change_state ex_db_two_runs (''dag_a'', ''task_1'', 1, 1) SUCCESS
     ((ex_executor 2)\<lparr>dags_to_watch := [(''dag_a'', \<lparr>waiting_for = 1, runs = []\<rparr>)],
                      log_warnings := [WAITING_ON_RUNS 1]\<rparr>)
   = (None, (ex_executor 2)\<lparr>dags_to_watch := [],
                             job_runner := Some \<lparr>num_runs = 1\<rparr>,
                             log_warnings := [WAITING_ON_RUNS 1, STOPPING_SCHEDULER]\<rparr>)"
  by (simp add: ex_executor_unfold change_state_def lookup_run_def run_finished_def
      ex_find_two_1 ex_all_success_two_1 stop_scheduler_def Let_def ex_super_change_state_def)

lemma ex_events_run:
  "change_states ex_super_change_state ex_events (ex_executor 2)
   = (None, (ex_executor 2)\<lparr>dags_to_watch := [],
                             job_runner := Some \<lparr>num_runs = 1\<rparr>,
                             log_warnings := [WAITING_ON_RUNS 1, STOPPING_SCHEDULER]\<rparr>)"
  by (simp add: ex_events_def ex_step_0 ex_step_1)

lemma ex_run_complete_0:
  "run_complete ex_db_two_runs (''dag_a'', ''task_1'', 0, 1) (ex_executor 2)"
  by (simp add: run_complete_def ex_executor_unfold lookup_run_def ex_find_two_0 ex_all_success_two_0)

lemma ex_run_succeeded_0: "run_succeeded ex_db_two_runs (''dag_a'', ''task_1'', 0, 1)"
  by (simp add: run_succeeded_def ex_find_two_0 ex_all_success_two_0)

lemma ex_run_succeeded_1: "run_succeeded ex_db_two_runs (''dag_a'', ''task_1'', 1, 1)"
  by (simp add: run_succeeded_def ex_find_two_1 ex_all_success_two_1)

lemma ex_events_of: "events_of ''dag_a'' ex_events = ex_events" "length ex_events = 2"
  by (simp_all add: events_of_def ex_events_def)

lemma ex_run_complete_1:
  "run_complete ex_db_two_runs (''dag_a'', ''task_1'', 1, 1)
     ((ex_executor 2)\<lparr>dags_to_watch := [(''dag_a'', \<lparr>waiting_for = 1, runs = []\<rparr>)],
                      log_warnings := [WAITING_ON_RUNS 1]\<rparr>)"
  by (simp add: run_complete_def lookup_run_def ex_find_two_1 ex_all_success_two_1)

lemma ex_finished_calls: "finished_calls ex_super_change_state ''dag_a'' ex_events (ex_executor 2) = 2"
  by (simp add: ex_events_def ex_step_0 ex_step_1 ex_run_complete_0 ex_run_complete_1)

subsection \<open>Counting the finished runs of a dag\<close>

text \<open>
  C5, as the claim states it, for a target of zero runs: after exactly zero runs have
  finished, the dag would be absent from the dictionary. The dag is there, with
  \<open>waiting_for = 0\<close>.
\<close>

theorem finished_runs_count_down_counterexample:
  "map_of (dags_to_watch (snd (change_states ex_super_change_state []
      (reset [''dag_a''] (ex_executor 0))))) ''dag_a'' = Some \<lparr>waiting_for = 0, runs = []\<rparr>"
  by (simp add: reset_def ex_executor_unfold)

text \<open>
  C5, amended to a target of at least one run. For a call of \<^verbatim>\<open>change_state\<close> on any
  executor:
  \<^item> when the check of line 86 holds for the run of a watched dag, the run leaves the
    cache and \<open>waiting_for\<close> of the dag goes down by exactly one (the dag leaving the
    dictionary if that makes it zero);
  \<^item> a dag that is not in the dictionary is not put into it;
  \<^item> \<open>waiting_for\<close> of a dag that stays in the dictionary does not go up;
  \<^item> a dag leaves the dictionary exactly in a call for that dag in which the check of
    line 86 holds and the decrement makes \<open>waiting_for\<close> zero.

  And for a sequence of calls after \<^verbatim>\<open>reset\<close> with a target of \<open>R > 0\<close> runs, none
  of which raises and in which every event of the dag \<open>x\<close> refers to a run that the
  database has with all its task instances successful (events of other dags being
  arbitrary): as long as fewer than \<open>R\<close> events of \<open>x\<close> were delivered, \<open>x\<close> is in the
  dictionary with \<open>waiting_for\<close> equal to \<open>R\<close> less their number, and from the
  \<open>R\<close>-th on it is absent. For any sequence of calls at all after such a
  \<^verbatim>\<open>reset\<close>, \<open>waiting_for\<close> of \<open>x\<close> is \<open>R\<close> less the number of calls for \<open>x\<close>
  in which the check of line 86 held, and \<open>x\<close> is absent once there were \<open>R\<close> of
  them.
\<close>

theorem finished_runs_count_down:
  "(run_complete db (dag_id, t, ld, n) s \<longrightarrow> map_of (dags_to_watch s) dag_id = Some entry \<longrightarrow>
      map_of (dags_to_watch (snd (change_state sc db (dag_id, t, ld, n) st s))) dag_id =
        (if waiting_for entry - 1 = 0 then None
         else Some \<lparr>waiting_for = waiting_for entry - 1,
                    runs = AList.delete ld (runs entry)\<rparr>)
      \<and> map_of (AList.delete ld (runs entry)) ld = None)
   \<and> (map_of (dags_to_watch s) y = None \<longrightarrow>
        map_of (dags_to_watch (snd (change_state sc db (dag_id, t, ld, n) st s))) y = None)
   \<and> (map_of (dags_to_watch s) x = Some e \<longrightarrow>
        map_of (dags_to_watch (snd (change_state sc db (dag_id, t, ld, n) st s))) x = Some e' \<longrightarrow>
        waiting_for e' \<le> waiting_for e)
   \<and> (map_of (dags_to_watch s) x = Some e \<longrightarrow>
        (map_of (dags_to_watch (snd (change_state sc db (dag_id, t, ld, n) st s))) x = None)
          = (x = dag_id \<and> run_complete db (dag_id, t, ld, n) s \<and> waiting_for e - 1 = 0))
   \<and> (0 < R \<longrightarrow> x \<in> set ids \<longrightarrow> num_runs_per_dag s0 = int R \<longrightarrow>
        (\<forall>(db, key, st) \<in> set evs. fst key = x \<longrightarrow> run_succeeded db key) \<longrightarrow>
        fst (change_states sc evs (reset ids s0)) = None \<longrightarrow>
        map_of (dags_to_watch (snd (change_states sc evs (reset ids s0)))) x =
          (if R \<le> length (events_of x evs) then None
           else Some \<lparr>waiting_for = int R - int (length (events_of x evs)), runs = []\<rparr>))
   \<and> (0 < R \<longrightarrow> x \<in> set ids \<longrightarrow> num_runs_per_dag s0 = int R \<longrightarrow>
        map_option waiting_for
            (map_of (dags_to_watch (snd (change_states sc evs (reset ids s0)))) x) =
          (if R \<le> finished_calls sc x evs (reset ids s0) then None
           else Some (int R - int (finished_calls sc x evs (reset ids s0)))))"
proof -
  have a: "run_complete db (dag_id, t, ld, n) s \<longrightarrow> map_of (dags_to_watch s) dag_id = Some entry \<longrightarrow>
      map_of (dags_to_watch (snd (change_state sc db (dag_id, t, ld, n) st s))) dag_id =
        (if waiting_for entry - 1 = 0 then None
         else Some \<lparr>waiting_for = waiting_for entry - 1,
                    runs = AList.delete ld (runs entry)\<rparr>)
      \<and> map_of (AList.delete ld (runs entry)) ld = None"
    using counted_once [of db dag_id t ld n s entry sc st] by (simp add: delete_conv')
  have b: "map_of (dags_to_watch s) y = None \<longrightarrow>
        map_of (dags_to_watch (snd (change_state sc db (dag_id, t, ld, n) st s))) y = None"
    using never_added by blast
  have c: "map_of (dags_to_watch s) x = Some e \<longrightarrow>
        map_of (dags_to_watch (snd (change_state sc db (dag_id, t, ld, n) st s))) x = Some e' \<longrightarrow>
        waiting_for e' \<le> waiting_for e"
    using never_increases by blast
  have d: "map_of (dags_to_watch s) x = Some e \<longrightarrow>
        (map_of (dags_to_watch (snd (change_state sc db (dag_id, t, ld, n) st s))) x = None)
          = (x = dag_id \<and> run_complete db (dag_id, t, ld, n) s \<and> waiting_for e - 1 = 0)"
    using removed_iff [of s x e sc db "(dag_id, t, ld, n)" st] by simp
  have e: "0 < R \<longrightarrow> x \<in> set ids \<longrightarrow> num_runs_per_dag s0 = int R \<longrightarrow>
        (\<forall>(db, key, st) \<in> set evs. fst key = x \<longrightarrow> run_succeeded db key) \<longrightarrow>
        fst (change_states sc evs (reset ids s0)) = None \<longrightarrow>
        map_of (dags_to_watch (snd (change_states sc evs (reset ids s0)))) x =
          (if R \<le> length (events_of x evs) then None
           else Some \<lparr>waiting_for = int R - int (length (events_of x evs)), runs = []\<rparr>)"
  proof (intro impI)
    assume R: "0 < R" and x: "x \<in> set ids" and n: "num_runs_per_dag s0 = int R"
      and ok: "\<forall>(db, key, st) \<in> set evs. fst key = x \<longrightarrow> run_succeeded db key"
      and noerr: "fst (change_states sc evs (reset ids s0)) = None"
    have start: "map_of (dags_to_watch (reset ids s0)) x = Some \<lparr>waiting_for = int R, runs = []\<rparr>"
      using x n by (simp add: reset_def fold_update_map_of)
    show "map_of (dags_to_watch (snd (change_states sc evs (reset ids s0)))) x =
          (if R \<le> length (events_of x evs) then None
           else Some \<lparr>waiting_for = int R - int (length (events_of x evs)), runs = []\<rparr>)"
      by (rule countdown [OF start R ok noerr])
  qed
  have f: "0 < R \<longrightarrow> x \<in> set ids \<longrightarrow> num_runs_per_dag s0 = int R \<longrightarrow>
        map_option waiting_for
            (map_of (dags_to_watch (snd (change_states sc evs (reset ids s0)))) x) =
          (if R \<le> finished_calls sc x evs (reset ids s0) then None
           else Some (int R - int (finished_calls sc x evs (reset ids s0))))"
  proof (intro impI)
    assume R: "0 < R" and x: "x \<in> set ids" and n: "num_runs_per_dag s0 = int R"
    have start: "map_of (dags_to_watch (reset ids s0)) x = Some \<lparr>waiting_for = int R, runs = []\<rparr>"
      using x n by (simp add: reset_def fold_update_map_of)
    have w: "waiting_for \<lparr>waiting_for = int R, runs = []\<rparr> = int R" by simp
    show "map_option waiting_for
            (map_of (dags_to_watch (snd (change_states sc evs (reset ids s0)))) x) =
          (if R \<le> finished_calls sc x evs (reset ids s0) then None
           else Some (int R - int (finished_calls sc x evs (reset ids s0))))"
      by (rule countdown_calls [OF start w R])
  qed
  from a b c d e f show ?thesis by blast
qed

theorem finished_runs_count_down_witness:
  "run_complete ex_db_two_runs (''dag_a'', ''task_1'', 0, 1) (ex_executor 2)
   \<and> map_of (dags_to_watch (ex_executor 2)) ''dag_a'' = Some \<lparr>waiting_for = 2, runs = []\<rparr>
   \<and> map_of (dags_to_watch (ex_executor 2)) ''dag_b'' = None
   \<and> map_of (dags_to_watch (snd (change_state ex_super_change_state ex_db_two_runs
         (''dag_a'', ''task_1'', 0, 1) SUCCESS (ex_executor 2)))) ''dag_a''
       = Some \<lparr>waiting_for = 1, runs = []\<rparr>
   \<and> map_of (dags_to_watch (snd (change_state ex_super_change_state ex_db_two_runs
         (''dag_a'', ''task_1'', 0, 1) SUCCESS (ex_executor 2)))) ''dag_b'' = None
   \<and> (0::nat) < 2 \<and> ''dag_a'' \<in> set [''dag_a''] \<and> num_runs_per_dag (ex_executor 2) = int 2
   \<and> run_succeeded ex_db_two_runs (''dag_a'', ''task_1'', 0, 1)
   \<and> run_succeeded ex_db_two_runs (''dag_a'', ''task_1'', 1, 1)
   \<and> fst (change_states ex_super_change_state ex_events (reset [''dag_a''] (ex_executor 2))) = None
   \<and> length (events_of ''dag_a'' ex_events) = 2
   \<and> finished_calls ex_super_change_state ''dag_a'' ex_events
         (reset [''dag_a''] (ex_executor 2)) = 2
   \<and> map_of (dags_to_watch (snd (change_states ex_super_change_state ex_events
         (reset [''dag_a''] (ex_executor 2))))) ''dag_a'' = None"
  using finished_runs_count_down [of ex_db_two_runs "''dag_a''" "''task_1''" 0 1 "ex_executor 2"
      "\<lparr>waiting_for = 2, runs = []\<rparr>" ex_super_change_state SUCCESS "''dag_b''" "''dag_a''"
      "\<lparr>waiting_for = 2, runs = []\<rparr>" "\<lparr>waiting_for = 1, runs = []\<rparr>" 2 "[''dag_a'']"
      "ex_executor 2" ex_events]
  by (simp add: ex_run_complete_0 ex_run_succeeded_0 ex_run_succeeded_1 ex_events_of
      reset_ex_executor ex_events_run ex_step_0 ex_finished_calls)
     (simp add: ex_executor_unfold ex_events_def)

subsection \<open>Stopping the scheduler\<close>

lemma change_state_empty:
  "dags_to_watch s = [] \<Longrightarrow>
   change_state sc db key st s = (None, s\<lparr>base := sc key st (base s)\<rparr>)"
  by (cases key) (simp add: change_state_def)

lemma change_state_emptying:
  assumes "job_runner s = Some jr"
      and "dags_to_watch s \<noteq> []"
      and "dags_to_watch (snd (change_state sc db key st s)) = []"
  shows "fst (change_state sc db key st s) = None
       \<and> job_runner (snd (change_state sc db key st s)) = Some (jr\<lparr>num_runs := 1\<rparr>)
       \<and> log_warnings (snd (change_state sc db key st s)) = log_warnings s @ [STOPPING_SCHEDULER]"
  using assms
  by (cases key)
     (auto simp: change_state_def Let_def stop_scheduler_def warn_waiting_def
           split: option.splits sum.splits prod.splits if_splits)

lemma change_state_not_emptying:
  assumes "dags_to_watch (snd (change_state sc db key st s)) \<noteq> []"
  shows "job_runner (snd (change_state sc db key st s)) = job_runner s
       \<and> (log_warnings (snd (change_state sc db key st s)) = log_warnings s
          \<or> (\<exists>k. log_warnings (snd (change_state sc db key st s))
                    = log_warnings s @ [WAITING_ON_RUNS k]))"
  using assms
  by (cases key)
     (auto simp: change_state_def Let_def stop_scheduler_def warn_waiting_def
           split: option.splits sum.splits prod.splits if_splits)

lemma change_state_not_emptying_stops:
  assumes "dags_to_watch (snd (change_state sc db key st s)) \<noteq> []"
  shows "stops_issued (snd (change_state sc db key st s)) = stops_issued s"
  using change_state_not_emptying [OF assms] by (auto simp: stops_issued_def)

lemma change_states_empty:
  "dags_to_watch s = [] \<Longrightarrow>
     dags_to_watch (snd (change_states sc evs s)) = []
   \<and> job_runner (snd (change_states sc evs s)) = job_runner s
   \<and> stops_issued (snd (change_states sc evs s)) = stops_issued s"
proof (induction evs arbitrary: s)
  case Nil
  then show ?case by simp
next
  case (Cons ev evs)
  obtain db key st where ev: "ev = (db, key, st)" by (cases ev)
  let ?s1 = "s\<lparr>base := sc key st (base s)\<rparr>"
  have "dags_to_watch ?s1 = []" using Cons.prems by simp
  from Cons.IH [OF this] change_state_empty [OF Cons.prems, of sc db key st] ev
  show ?case by (simp add: stops_issued_def)
qed

lemma stop_once:
  assumes "job_runner s = Some jr"
  shows "stops_issued (snd (change_states sc evs s)) =
           stops_issued s
             + (if dags_to_watch s \<noteq> [] \<and> dags_to_watch (snd (change_states sc evs s)) = []
                then 1 else 0)
       \<and> job_runner (snd (change_states sc evs s)) =
           (if dags_to_watch s \<noteq> [] \<and> dags_to_watch (snd (change_states sc evs s)) = []
            then Some (jr\<lparr>num_runs := 1\<rparr>) else Some jr)"
  using assms
proof (induction evs arbitrary: s jr)
  case Nil
  then show ?case by simp
next
  case (Cons ev evs)
  obtain db key st where ev: "ev = (db, key, st)" by (cases ev)
  obtain r s1 where cs: "change_state sc db key st s = (r, s1)"
    by (cases "change_state sc db key st s")
  show ?case
  proof (cases "dags_to_watch s = []")
    case True
    from change_states_empty [OF True, of sc "ev # evs"] Cons.prems True show ?thesis
      by simp
  next
    case nonempty: False
    show ?thesis
    proof (cases "dags_to_watch s1 = []")
      case True
      from change_state_emptying [OF Cons.prems nonempty, of sc db key st] cs True
      have r: "r = None" and j1: "job_runner s1 = Some (jr\<lparr>num_runs := 1\<rparr>)"
        and l1: "log_warnings s1 = log_warnings s @ [STOPPING_SCHEDULER]"
        by simp_all
      from l1 have c1: "stops_issued s1 = stops_issued s + 1"
        by (simp add: stops_issued_def)
      from change_states_empty [OF True, of sc evs] cs r ev j1 c1 nonempty
      show ?thesis by simp
    next
      case False
      from change_state_not_emptying [of sc db key st s]
           change_state_not_emptying_stops [of sc db key st s] cs False
      have j1: "job_runner s1 = Some jr" and c1: "stops_issued s1 = stops_issued s"
        using Cons.prems by simp_all
      show ?thesis
      proof (cases r)
        case (Some e)
        with cs ev j1 c1 False show ?thesis by simp
      next
        case None
        from Cons.IH [OF j1] cs ev None c1 False nonempty show ?thesis by simp
      qed
    qed
  qed
qed

text \<open>
  When the stop is issued, on the job runner that is attached to the executor (the one
  of line 284). With that job runner attached, a call of \<^verbatim>\<open>change_state\<close> that
  finds the dictionary non-empty and leaves it empty returns normally, sets
  \<^verbatim>\<open>num_runs\<close> of the job runner to 1 and logs that it stops the scheduler; every
  other call leaves the job runner as it is and logs no stop. So over any sequence of
  calls the stop is issued once if the sequence empties the dictionary, in the call
  that empties it, and not at all otherwise: no call before that one issues it, and no
  call after it does.
\<close>

theorem stop_exactly_when_emptied:
  assumes "job_runner s = Some jr"
  shows "(if dags_to_watch s \<noteq> [] \<and> dags_to_watch (snd (change_state sc db key st s)) = []
          then fst (change_state sc db key st s) = None
             \<and> job_runner (snd (change_state sc db key st s)) = Some (jr\<lparr>num_runs := 1\<rparr>)
             \<and> log_warnings (snd (change_state sc db key st s))
                 = log_warnings s @ [STOPPING_SCHEDULER]
          else job_runner (snd (change_state sc db key st s)) = Some jr
             \<and> stops_issued (snd (change_state sc db key st s)) = stops_issued s)
       \<and> stops_issued (snd (change_states sc evs s)) =
           stops_issued s
             + (if dags_to_watch s \<noteq> [] \<and> dags_to_watch (snd (change_states sc evs s)) = []
                then 1 else 0)
       \<and> job_runner (snd (change_states sc evs s)) =
           (if dags_to_watch s \<noteq> [] \<and> dags_to_watch (snd (change_states sc evs s)) = []
            then Some (jr\<lparr>num_runs := 1\<rparr>) else Some jr)"
proof -
  have one: "(if dags_to_watch s \<noteq> [] \<and> dags_to_watch (snd (change_state sc db key st s)) = []
          then fst (change_state sc db key st s) = None
             \<and> job_runner (snd (change_state sc db key st s)) = Some (jr\<lparr>num_runs := 1\<rparr>)
             \<and> log_warnings (snd (change_state sc db key st s))
                 = log_warnings s @ [STOPPING_SCHEDULER]
          else job_runner (snd (change_state sc db key st s)) = Some jr
             \<and> stops_issued (snd (change_state sc db key st s)) = stops_issued s)"
  proof (cases "dags_to_watch s = []")
    case True
    from change_state_empty [OF True, of sc db key st] assms True show ?thesis
      by (simp add: stops_issued_def)
  next
    case nonempty: False
    show ?thesis
    proof (cases "dags_to_watch (snd (change_state sc db key st s)) = []")
      case True
      from change_state_emptying [OF assms nonempty True] nonempty True show ?thesis
        by simp
    next
      case False
      from change_state_not_emptying [OF False] change_state_not_emptying_stops [OF False]
        assms False
      show ?thesis by simp
    qed
  qed
  from one stop_once [OF assms, of sc evs] show ?thesis by simp
qed
theorem stop_exactly_when_emptied_witness:
  "job_runner (ex_executor 2) = Some \<lparr>num_runs = - 1\<rparr>
   \<and> dags_to_watch (ex_executor 2) \<noteq> []
   \<and> dags_to_watch (snd (change_state ex_super_change_state ex_db_two_runs
         (''dag_a'', ''task_1'', 0, 1) SUCCESS (ex_executor 2))) \<noteq> []
   \<and> job_runner (snd (change_state ex_super_change_state ex_db_two_runs
         (''dag_a'', ''task_1'', 0, 1) SUCCESS (ex_executor 2))) = Some \<lparr>num_runs = - 1\<rparr>
   \<and> stops_issued (snd (change_state ex_super_change_state ex_db_two_runs
         (''dag_a'', ''task_1'', 0, 1) SUCCESS (ex_executor 2))) = 0
   \<and> dags_to_watch (snd (change_states ex_super_change_state ex_events (ex_executor 2))) = []
   \<and> stops_issued (snd (change_states ex_super_change_state ex_events (ex_executor 2))) = 1
   \<and> job_runner (snd (change_states ex_super_change_state ex_events (ex_executor 2)))
       = Some \<lparr>num_runs = 1\<rparr>"
proof -
  have h: "job_runner (ex_executor 2) = Some \<lparr>num_runs = - 1\<rparr>"
    by (simp add: ex_executor_unfold)
  have e0: "dags_to_watch (ex_executor 2) \<noteq> []" "stops_issued (ex_executor 2) = 0"
    by (simp_all add: ex_executor_unfold stops_issued_def)
  have e1: "dags_to_watch (snd (change_state ex_super_change_state ex_db_two_runs
         (''dag_a'', ''task_1'', 0, 1) SUCCESS (ex_executor 2))) \<noteq> []"
    by (simp add: ex_step_0)
  have e2: "dags_to_watch (snd (change_states ex_super_change_state ex_events (ex_executor 2))) = []"
    by (simp add: ex_events_run)
  show ?thesis
    using stop_exactly_when_emptied [OF h, of ex_super_change_state ex_db_two_runs
        "(''dag_a'', ''task_1'', 0, 1)" SUCCESS ex_events] h e0 e1 e2
    by simp
qed

subsection \<open>A target of zero runs\<close>

lemma list_all_update:
  "list_all P al \<Longrightarrow> P (k, v) \<Longrightarrow> list_all P (AList.update k v al)"
  by (induction al) auto

lemma list_all_fold_update:
  "list_all P acc \<Longrightarrow> (\<And>k. P (k, v)) \<Longrightarrow> list_all P (fold (\<lambda>k d. AList.update k v d) ks acc)"
  by (induction ks arbitrary: acc) (auto simp: list_all_update)

lemma update_keys_present:
  "map_of al k = Some v \<Longrightarrow> map fst (AList.update k v' al) = map fst al"
  by (induction al) (auto split: if_splits)

lemma map_of_list_all:
  "list_all P al \<Longrightarrow> map_of al k = Some v \<Longrightarrow> P (k, v)"
  by (induction al) (auto split: if_splits)

lemma never_zero_step:
  assumes inv: "list_all (\<lambda>(d, e). waiting_for e \<le> 0) (dags_to_watch s)"
  shows "map fst (dags_to_watch (snd (change_state sc db key st s))) = map fst (dags_to_watch s)
       \<and> list_all (\<lambda>(d, e). waiting_for e \<le> 0) (dags_to_watch (snd (change_state sc db key st s)))"
proof -
  obtain dag_id t ld n where key: "key = (dag_id, t, ld, n)" by (cases key)
  show ?thesis
  proof (cases "map_of (dags_to_watch s) dag_id")
    case None
    with inv key show ?thesis by (simp add: dags_to_watch_change_state)
  next
    case (Some entry)
    from map_of_list_all [OF inv Some] have w: "waiting_for entry \<le> 0" by simp
    show ?thesis
    proof (cases "lookup_run db dag_id ld entry")
      case (Inl e)
      with inv key Some show ?thesis by (simp add: dags_to_watch_change_state)
    next
      case (Inr p)
      obtain run entry1 where p: "p = (run, entry1)" by (cases p)
      from lookup_run_Inr [OF Inr [unfolded p]] have w1: "waiting_for entry1 = waiting_for entry"
        by simp
      have k1: "map fst (AList.update dag_id entry1 (dags_to_watch s)) = map fst (dags_to_watch s)"
        by (rule update_keys_present [OF Some])
      have i1: "list_all (\<lambda>(d, e). waiting_for e \<le> 0) (AList.update dag_id entry1 (dags_to_watch s))"
        using inv w w1 by (simp add: list_all_update)
      have m1: "map_of (AList.update dag_id entry1 (dags_to_watch s)) dag_id = Some entry1"
        by (simp add: update_conv')
      have fin: "run_finished dag_id ld entry1 (AList.update dag_id entry1 (dags_to_watch s))
                  = AList.update dag_id
                      (entry1\<lparr>runs := AList.delete ld (runs entry1),
                              waiting_for := waiting_for entry1 - 1\<rparr>)
                      (AList.update dag_id entry1 (dags_to_watch s))"
        using w w1 by (simp add: run_finished_def Let_def)
      have k2: "map fst (run_finished dag_id ld entry1 (AList.update dag_id entry1 (dags_to_watch s)))
                  = map fst (dags_to_watch s)"
        unfolding fin using update_keys_present [OF m1] k1 by simp
      have i2: "list_all (\<lambda>(d, e). waiting_for e \<le> 0)
                  (run_finished dag_id ld entry1 (AList.update dag_id entry1 (dags_to_watch s)))"
        unfolding fin using inv w w1 by (simp add: list_all_update)
      from key Some Inr p k1 i1 k2 i2 show ?thesis
        by (simp add: dags_to_watch_change_state)
    qed
  qed
qed

lemma never_zero_step_quiet:
  assumes inv: "list_all (\<lambda>(d, e). waiting_for e \<le> 0) (dags_to_watch s)"
  shows "job_runner (snd (change_state sc db key st s)) = job_runner s
       \<and> stops_issued (snd (change_state sc db key st s)) = stops_issued s"
proof (cases "dags_to_watch s = []")
  case True
  from change_state_empty [OF True, of sc db key st] show ?thesis
    by (simp add: stops_issued_def)
next
  case False
  with never_zero_step [OF inv, of sc db key st]
  have "dags_to_watch (snd (change_state sc db key st s)) \<noteq> []"
    by (metis map_is_Nil_conv)
  from change_state_not_emptying [OF this] change_state_not_emptying_stops [OF this]
  show ?thesis by simp
qed

lemma never_zero_steps:
  assumes "list_all (\<lambda>(d, e). waiting_for e \<le> 0) (dags_to_watch s)"
  shows "map fst (dags_to_watch (snd (change_states sc evs s))) = map fst (dags_to_watch s)
       \<and> job_runner (snd (change_states sc evs s)) = job_runner s
       \<and> stops_issued (snd (change_states sc evs s)) = stops_issued s"
  using assms
proof (induction evs arbitrary: s)
  case Nil
  then show ?case by simp
next
  case (Cons ev evs)
  obtain db key st where ev: "ev = (db, key, st)" by (cases ev)
  obtain r s1 where cs: "change_state sc db key st s = (r, s1)"
    by (cases "change_state sc db key st s")
  from never_zero_step [OF Cons.prems, of sc db key st] never_zero_step_quiet [OF Cons.prems, of sc db key st] cs
  have k: "map fst (dags_to_watch s1) = map fst (dags_to_watch s)"
    and i: "list_all (\<lambda>(d, e). waiting_for e \<le> 0) (dags_to_watch s1)"
    and j: "job_runner s1 = job_runner s" and c: "stops_issued s1 = stops_issued s"
    by simp_all
  show ?case
  proof (cases r)
    case None
    from Cons.IH [OF i] cs ev None k j c show ?thesis by simp
  next
    case (Some e)
    with cs ev k j c show ?thesis by simp
  qed
qed

text \<open>
  C10. After \<^verbatim>\<open>reset\<close> with \<open>num_runs_per_dag = 0\<close> every entry of the dictionary has
  \<open>waiting_for = 0\<close>. A dag is removed only by line 91, after a decrement that makes
  the counter zero, and a counter that starts at zero only becomes negative: whatever
  sequence of state changes follows, the dictionary keeps exactly its keys (it is not
  empty when at least one dag id was given), no stop of the scheduler is logged, and
  the job runner is left as it was.
\<close>

theorem zero_target_never_completes:
  assumes "num_runs_per_dag s = 0" and "ids \<noteq> []"
  shows "list_all (\<lambda>(d, e). waiting_for e = 0) (dags_to_watch (reset ids s))
       \<and> map fst (dags_to_watch (snd (change_states sc evs (reset ids s))))
           = map fst (dags_to_watch (reset ids s))
       \<and> set (map fst (dags_to_watch (snd (change_states sc evs (reset ids s))))) = set ids
       \<and> dags_to_watch (snd (change_states sc evs (reset ids s))) \<noteq> []
       \<and> stops_issued (snd (change_states sc evs (reset ids s))) = stops_issued s
       \<and> job_runner (snd (change_states sc evs (reset ids s))) = job_runner s"
proof -
  have zero: "list_all (\<lambda>(d, e). waiting_for e = 0) (dags_to_watch (reset ids s))"
    using assms(1) by (simp add: reset_def list_all_fold_update)
  have inv: "list_all (\<lambda>(d, e). waiting_for e \<le> 0) (dags_to_watch (reset ids s))"
    using assms(1) by (simp add: reset_def list_all_fold_update)
  have keys: "set (map fst (dags_to_watch (reset ids s))) = set ids"
    by (simp add: reset_def fold_update_keys)
  have same: "job_runner (reset ids s) = job_runner s" "stops_issued (reset ids s) = stops_issued s"
    by (simp_all add: reset_def stops_issued_def)
  let ?s' = "snd (change_states sc evs (reset ids s))"
  from never_zero_steps [OF inv, of sc evs]
  have k: "map fst (dags_to_watch ?s') = map fst (dags_to_watch (reset ids s))"
    and j: "job_runner ?s' = job_runner (reset ids s)"
    and c: "stops_issued ?s' = stops_issued (reset ids s)"
    by simp_all
  from k keys have ks: "set (map fst (dags_to_watch ?s')) = set ids" by simp
  have ne: "dags_to_watch ?s' \<noteq> []"
  proof
    assume "dags_to_watch ?s' = []"
    with ks have "set ids = {}" by simp
    with assms(2) show False by simp
  qed
  from zero k ks ne j c same show ?thesis by simp
qed

lemma ex_zero_step_0:
  "change_state ex_super_change_state ex_db_two_runs (''dag_a'', ''task_1'', 0, 1) SUCCESS
     (ex_executor 0)
   = (None, (ex_executor 0)\<lparr>dags_to_watch := [(''dag_a'', \<lparr>waiting_for = - 1, runs = []\<rparr>)],
                             log_warnings := [WAITING_ON_RUNS (- 1)]\<rparr>)"
  by (simp add: ex_executor_unfold change_state_def lookup_run_def run_finished_def
      ex_find_two_0 ex_all_success_two_0 warn_waiting_def Let_def ex_super_change_state_def)

lemma ex_zero_step_1:
  "change_state ex_super_change_state ex_db_two_runs (''dag_a'', ''task_1'', 1, 1) SUCCESS
     ((ex_executor 0)\<lparr>dags_to_watch := [(''dag_a'', \<lparr>waiting_for = - 1, runs = []\<rparr>)],
                      log_warnings := [WAITING_ON_RUNS (- 1)]\<rparr>)
   = (None, (ex_executor 0)\<lparr>dags_to_watch := [(''dag_a'', \<lparr>waiting_for = - 2, runs = []\<rparr>)],
                             log_warnings := [WAITING_ON_RUNS (- 1), WAITING_ON_RUNS (- 2)]\<rparr>)"
  by (simp add: ex_executor_unfold change_state_def lookup_run_def run_finished_def
      ex_find_two_1 ex_all_success_two_1 warn_waiting_def Let_def ex_super_change_state_def)

theorem zero_target_never_completes_witness:
  "num_runs_per_dag (ex_executor 0) = 0 \<and> [''dag_a''] \<noteq> []
   \<and> dags_to_watch (snd (change_states ex_super_change_state ex_events
        (reset [''dag_a''] (ex_executor 0))))
       = [(''dag_a'', \<lparr>waiting_for = - 2, runs = []\<rparr>)]
   \<and> stops_issued (snd (change_states ex_super_change_state ex_events
        (reset [''dag_a''] (ex_executor 0)))) = 0
   \<and> job_runner (snd (change_states ex_super_change_state ex_events
        (reset [''dag_a''] (ex_executor 0)))) = Some \<lparr>num_runs = - 1\<rparr>"
proof -
  have h1: "num_runs_per_dag (ex_executor 0) = 0" by (simp add: ex_executor_unfold)
  have h2: "[''dag_a''] \<noteq> []" by simp
  have e: "dags_to_watch (snd (change_states ex_super_change_state ex_events
        (reset [''dag_a''] (ex_executor 0))))
       = [(''dag_a'', \<lparr>waiting_for = - 2, runs = []\<rparr>)]"
    by (simp add: reset_ex_executor ex_events_def ex_zero_step_0 ex_zero_step_1)
  have z: "stops_issued (ex_executor 0) = 0" "job_runner (ex_executor 0) = Some \<lparr>num_runs = - 1\<rparr>"
    by (simp_all add: ex_executor_unfold stops_issued_def)
  show ?thesis
    using zero_target_never_completes [OF h1 h2, of ex_super_change_state ex_events] h1 e z
    by simp
qed

subsection \<open>Wiping the rows of a dag\<close>

text \<open>
  C9, as the claim states it: after the wipe the dag is paused. The row of \<open>dag_a\<close> is
  paused before \<^verbatim>\<open>reset_dag\<close> and is not paused after it.
\<close>

theorem reset_dag_counterexample:
  "map is_paused (dag_model_table (pause_all_dags ex_db_success)) = [True]
   \<and> map is_paused (dag_model_table (reset_dag ex_dag_a (pause_all_dags ex_db_success))) = [False]"
  by (simp add: reset_dag_def pause_all_dags_def ex_db_success_def ex_dag_a_def Let_def)

text \<open>
  C9, amended. \<^verbatim>\<open>reset_dag\<close> deletes the dag run rows and the task instance rows of the
  dag and leaves the dag unpaused, as its docstring says: no row of the two tables
  belongs to the dag afterwards, every \<^verbatim>\<open>DagModel\<close> row of the dag has \<^verbatim>\<open>is_paused\<close>
  false, and the rows of the other dags are as they were.
\<close>

theorem reset_dag_unpauses:
  "(\<forall>r \<in> set (dag_run_table (reset_dag dag session)). dr_dag_id r \<noteq> dag_dag_id dag)
   \<and> (\<forall>t \<in> set (task_instance_table (reset_dag dag session)). ti_dag_id t \<noteq> dag_dag_id dag)
   \<and> (\<forall>m \<in> set (dag_model_table (reset_dag dag session)).
         dm_dag_id m = dag_dag_id dag \<longrightarrow> \<not> is_paused m)
   \<and> filter (\<lambda>r. dr_dag_id r \<noteq> dag_dag_id dag) (dag_run_table (reset_dag dag session))
       = filter (\<lambda>r. dr_dag_id r \<noteq> dag_dag_id dag) (dag_run_table session)
   \<and> filter (\<lambda>t. ti_dag_id t \<noteq> dag_dag_id dag) (task_instance_table (reset_dag dag session))
       = filter (\<lambda>t. ti_dag_id t \<noteq> dag_dag_id dag) (task_instance_table session)
   \<and> filter (\<lambda>m. dm_dag_id m \<noteq> dag_dag_id dag) (dag_model_table (reset_dag dag session))
       = filter (\<lambda>m. dm_dag_id m \<noteq> dag_dag_id dag) (dag_model_table session)
   \<and> map dm_dag_id (dag_model_table (reset_dag dag session))
       = map dm_dag_id (dag_model_table session)"
proof -
  have models: "filter (\<lambda>m. dm_dag_id m \<noteq> x)
                  (map (\<lambda>m. if dm_dag_id m = x then m\<lparr>is_paused := False\<rparr> else m) ms)
                = filter (\<lambda>m. dm_dag_id m \<noteq> x) ms" for x :: dag_id and ms :: "dag_model list"
    by (induction ms) auto
  have ids: "map dm_dag_id (map (\<lambda>m. if dm_dag_id m = x then m\<lparr>is_paused := False\<rparr> else m) ms)
               = map dm_dag_id ms" for x :: dag_id and ms :: "dag_model list"
    by (induction ms) auto
  show ?thesis
    by (auto simp: reset_dag_def Let_def models ids)
qed

theorem reset_dag_unpauses_witness:
  "dag_run_table (reset_dag ex_dag_a (pause_all_dags ex_db_success)) = []
   \<and> task_instance_table (reset_dag ex_dag_a (pause_all_dags ex_db_success)) = []
   \<and> dag_model_table (reset_dag ex_dag_a (pause_all_dags ex_db_success))
       = [\<lparr>dm_dag_id = ''dag_a'', is_paused = False\<rparr>]"
  using reset_dag_unpauses [of ex_dag_a "pause_all_dags ex_db_success"]
  by (simp add: reset_dag_def pause_all_dags_def ex_db_success_def ex_dag_a_def ex_run_def Let_def)

subsection \<open>Repeated trials\<close>

lemma trial_setup_later: "0 < count \<Longrightarrow> trial_setup af dag_ids dags count h = h"
  by (simp add: trial_setup_def)

text \<open>
  The job runner that lines 306 and 307 construct is bound to the variable of
  \<^verbatim>\<open>main\<close>; the executor keeps the one it was given on line 284.
\<close>

lemma trial_setup_keeps_job_runner:
  "job_runner (h_executor (trial_setup af dag_ids dags count h)) = job_runner (h_executor h)"
  by (simp add: trial_setup_def reset_def)

lemma ex_harness_after_trial_unfold:
  "ex_harness_after_trial =
     \<lparr>h_session = ex_db_success,
      h_executor = \<lparr>base = (), num_runs_per_dag = 1, dags_to_watch = [],
                    job_runner = Some \<lparr>num_runs = 1\<rparr>,
                    log_warnings = [STOPPING_SCHEDULER]\<rparr>,
      h_job_runner = \<lparr>num_runs = - 1\<rparr>\<rparr>"
  by (simp add: ex_harness_after_trial_def ex_executor_unfold ex_key_def change_state_def
      lookup_run_def run_finished_def ex_find_success ex_all_success stop_scheduler_def Let_def
      ex_super_change_state_def)

text \<open>
  C3. The claim is that the database rows and the tracker are reset before each of the
  repeated trials. The block of lines 301 to 308 runs under \<^verbatim>\<open>if not count\<close>, that is
  before the first trial only. Before the second trial (\<open>count = 1\<close>) the state the
  first trial left is handed on unchanged: the dictionary of the executor is still
  empty and the finished run is still in the database, where the same block run with
  \<open>count = 0\<close> gives the full counter and no run.
\<close>

theorem second_trial_is_not_reset:
  "trial_setup ex_airflow [''dag_a''] [ex_dag_a] 1 ex_harness_after_trial = ex_harness_after_trial
   \<and> dags_to_watch (h_executor (trial_setup ex_airflow [''dag_a''] [ex_dag_a] 1
        ex_harness_after_trial)) = []
   \<and> dag_run_table (h_session (trial_setup ex_airflow [''dag_a''] [ex_dag_a] 1
        ex_harness_after_trial)) = [ex_run]
   \<and> dags_to_watch (h_executor (trial_setup ex_airflow [''dag_a''] [ex_dag_a] 0
        ex_harness_after_trial)) = [(''dag_a'', \<lparr>waiting_for = 1, runs = []\<rparr>)]
   \<and> dag_run_table (h_session (trial_setup ex_airflow [''dag_a''] [ex_dag_a] 0
        ex_harness_after_trial)) = []"
  by (simp add: trial_setup_def ex_harness_after_trial_unfold reset_def reset_dag_def Let_def
      ex_db_success_def ex_dag_a_def ex_run_def)

subsection \<open>The check of the end date\<close>

lemma exit_status_nonzero: "exit_status f \<noteq> 0"
  by (cases f) simp_all

lemma setup_dag_mismatch:
  assumes "get_dag af x = Some dag"
      and "last_dagrun_info dag n = Inr (Some next_info)"
      and "configured_end_date dag \<noteq> Some (info_logical_date next_info)"
  shows "setup_dag af n pc x sd =
           Inl (SystemExit (end_date_message af x (configured_end_date dag)
                              (info_logical_date next_info)))"
  using assms by (cases sd) (simp add: setup_dag_def Let_def)

lemma setup_dags_append:
  "setup_dags af n pc (pre @ post) sd =
     (case setup_dags af n pc pre sd of
        Inl f \<Rightarrow> Inl f
      | Inr sd1 \<Rightarrow> setup_dags af n pc post sd1)"
  by (induction pre arbitrary: sd) (auto split: sum.splits)

lemma setup_dags_mismatch_fails:
  assumes "get_dag af x = Some dag"
      and "last_dagrun_info dag n = Inr (Some next_info)"
      and "configured_end_date dag \<noteq> Some (info_logical_date next_info)"
      and "x \<in> set dag_ids"
  shows "\<exists>f. setup_dags af n pc dag_ids sd = Inl f"
  using assms(4)
proof (induction dag_ids arbitrary: sd)
  case Nil
  then show ?case by simp
next
  case (Cons y ys)
  show ?case
  proof (cases "setup_dag af n pc y sd")
    case (Inl f)
    then show ?thesis by simp
  next
    case (Inr sd1)
    with setup_dag_mismatch [OF assms(1-3), of pc sd] have "y \<noteq> x" by auto
    with Cons.prems have "x \<in> set ys" by simp
    from Cons.IH [OF this, of sd1] Inr show ?thesis by simp
  qed
qed

lemma main_setup_fails:
  "setup_dags af n pc dag_ids (pause_all_dags session0, []) = Inl f \<Longrightarrow>
   main af n repeat pc ec dag_ids session0 = Inl f"
  by (simp add: main_def)

lemma ex_get_dag:
  "get_dag ex_airflow ''dag_a'' = Some ex_dag_a"
  "get_dag ex_airflow ''dag_b'' = Some ex_dag_b"
  "get_dag ex_airflow ''dag_c'' = Some ex_dag_c"
  by (simp_all add: ex_airflow_def)

lemma ex_last_dagrun_info:
  "last_dagrun_info ex_dag_a 1 = Inr (Some \<lparr>info_logical_date = 1, info_data_interval = (1, 2)\<rparr>)"
  "last_dagrun_info ex_dag_b 1 = Inr (Some \<lparr>info_logical_date = 1, info_data_interval = (1, 2)\<rparr>)"
  "last_dagrun_info ex_dag_c 1 = Inr (Some \<lparr>info_logical_date = 1, info_data_interval = (1, 2)\<rparr>)"
  by (simp_all add: last_dagrun_info_def ex_dag_a_def ex_dag_b_def ex_dag_c_def
      ex_next_dagrun_info_def)

lemma ex_configured_end_date:
  "configured_end_date ex_dag_a = Some 5"
  "configured_end_date ex_dag_b = Some 7"
  "configured_end_date ex_dag_c = Some 1"
  by (simp_all add: configured_end_date_def ex_dag_a_def ex_dag_b_def ex_dag_c_def)

lemma ex_messages:
  "end_date_message ex_airflow ''dag_a'' (Some 5) 1 =
     ''DAG dag_a has incorrect end_date (2021-01-05) for number of runs! It should be 2021-01-01''"
  "end_date_message ex_airflow ''dag_b'' (Some 7) 1 =
     ''DAG dag_b has incorrect end_date (2021-01-07) for number of runs! It should be 2021-01-01''"
  by (simp_all add: end_date_message_def ex_airflow_def ex_str_of_date_def)

lemma ex_setup_dag_c:
  "setup_dags ex_airflow 1 False [''dag_c''] (pause_all_dags ex_db_no_run, []) =
     Inr (reset_dag ex_dag_c (pause_all_dags ex_db_no_run), [ex_dag_c])"
  by (simp add: setup_dag_def ex_get_dag ex_last_dagrun_info ex_configured_end_date Let_def)
     (simp add: ex_airflow_def)

text \<open>
  C8, as the claim states it: for every watched dag whose end date differs from the
  logical date of its last run, the message of the exit names that dag. With \<open>dag_a\<close>
  and \<open>dag_b\<close> both given and both with such an end date, the process exits at
  \<open>dag_a\<close>, and the message names \<open>dag_a\<close> and not \<open>dag_b\<close>.
\<close>

theorem end_date_mismatch_counterexample:
  "get_dag ex_airflow ''dag_b'' = Some ex_dag_b
   \<and> last_dagrun_info ex_dag_b 1 = Inr (Some \<lparr>info_logical_date = 1, info_data_interval = (1, 2)\<rparr>)
   \<and> configured_end_date ex_dag_b = Some 7
   \<and> main ex_airflow 1 3 False ''airflow.executors.local_executor.LocalExecutor''
       [''dag_a'', ''dag_b''] ex_db_no_run =
       Inl (SystemExit
         ''DAG dag_a has incorrect end_date (2021-01-05) for number of runs! It should be 2021-01-01'')"
  by (simp add: ex_get_dag ex_last_dagrun_info ex_configured_end_date main_def setup_dag_def
      Let_def ex_messages)

text \<open>
  C8, amended. Let the end date of a watched dag differ from the logical date of the
  run that lines 263 to 266 compute for it (the \<open>n\<close>-th run of its schedule for
  \<open>n\<close> runs, \<open>n \<ge> 1\<close>). Then \<^verbatim>\<open>main\<close> ends in the loop of line 257, before the executor
  is built and before any trial is run or timed, with a failure and so with a non-zero
  exit status, whatever the scheduler would have done. When the dag ids given before it
  are set up without failure, so that it is the first dag that fails the check, the
  process exits by \<^verbatim>\<open>sys.exit\<close> with the message that names this dag, its end date and
  the date expected.
\<close>

theorem end_date_mismatch_exits:
  assumes "get_dag af x = Some dag"
      and "last_dagrun_info dag n = Inr (Some next_info)"
      and "configured_end_date dag \<noteq> Some (info_logical_date next_info)"
  shows "(x \<in> set dag_ids \<longrightarrow>
           (\<exists>f. main af n repeat pc ec dag_ids session0 = Inl f \<and> exit_status f \<noteq> 0))
       \<and> (setup_dags af n pc pre (pause_all_dags session0, []) = Inr sd \<longrightarrow>
           main af n repeat pc ec (pre @ x # post) session0 =
             Inl (SystemExit (end_date_message af x (configured_end_date dag)
                                (info_logical_date next_info))))"
proof (intro conjI impI)
  assume "x \<in> set dag_ids"
  from setup_dags_mismatch_fails [OF assms this, of pc "(pause_all_dags session0, [])"]
  obtain f where "setup_dags af n pc dag_ids (pause_all_dags session0, []) = Inl f" ..
  from main_setup_fails [OF this] exit_status_nonzero
  show "\<exists>f. main af n repeat pc ec dag_ids session0 = Inl f \<and> exit_status f \<noteq> 0"
    by blast
next
  assume pre: "setup_dags af n pc pre (pause_all_dags session0, []) = Inr sd"
  have "setup_dags af n pc (pre @ x # post) (pause_all_dags session0, []) =
          Inl (SystemExit (end_date_message af x (configured_end_date dag)
                             (info_logical_date next_info)))"
    using pre setup_dag_mismatch [OF assms, of pc sd] by (simp add: setup_dags_append)
  then show "main af n repeat pc ec (pre @ x # post) session0 =
             Inl (SystemExit (end_date_message af x (configured_end_date dag)
                                (info_logical_date next_info)))"
    by (rule main_setup_fails)
qed

theorem end_date_mismatch_exits_witness:
  "get_dag ex_airflow ''dag_a'' = Some ex_dag_a
   \<and> last_dagrun_info ex_dag_a 1 = Inr (Some \<lparr>info_logical_date = 1, info_data_interval = (1, 2)\<rparr>)
   \<and> configured_end_date ex_dag_a = Some 5
   \<and> ''dag_a'' \<in> set [''dag_c'', ''dag_a'', ''dag_b'']
   \<and> setup_dags ex_airflow 1 False [''dag_c''] (pause_all_dags ex_db_no_run, []) =
       Inr (reset_dag ex_dag_c (pause_all_dags ex_db_no_run), [ex_dag_c])
   \<and> main ex_airflow 1 3 False ''airflow.executors.local_executor.LocalExecutor''
       [''dag_c'', ''dag_a'', ''dag_b''] ex_db_no_run =
       Inl (SystemExit
         ''DAG dag_a has incorrect end_date (2021-01-05) for number of runs! It should be 2021-01-01'')"
proof -
  have h3: "configured_end_date ex_dag_a \<noteq>
              Some (info_logical_date \<lparr>info_logical_date = 1, info_data_interval = (1, 2)\<rparr>)"
    by (simp add: ex_configured_end_date)
  show ?thesis
    using end_date_mismatch_exits [OF ex_get_dag(1) ex_last_dagrun_info(1) h3,
        of "[''dag_c'', ''dag_a'', ''dag_b'']" 3 False
           "''airflow.executors.local_executor.LocalExecutor''" ex_db_no_run "[''dag_c'']"
           "(reset_dag ex_dag_c (pause_all_dags ex_db_no_run), [ex_dag_c])" "[''dag_b'']"]
      ex_setup_dag_c
    by (simp add: ex_get_dag ex_last_dagrun_info ex_configured_end_date ex_messages)
qed

subsection \<open>The job runner that is stopped\<close>

lemma ex_setup_dag_c_start:
  "setup_dags ex_airflow_running 1 False [''dag_c''] (pause_all_dags ex_db_c_start, []) =
     Inr (ex_db_c_start, [ex_dag_c])"
  by (simp add: setup_dag_def ex_airflow_running_def ex_get_dag ex_last_dagrun_info
        ex_configured_end_date Let_def)
     (simp add: ex_airflow_def reset_dag_def pause_all_dags_def ex_db_c_start_def ex_dag_c_def
        Let_def)

lemma ex_first_trial_setup:
  "trial_setup ex_airflow_running [''dag_c''] [ex_dag_c] 0
     \<lparr>h_session = ex_db_c_start,
      h_executor = (init () [''dag_c''] 1)\<lparr>job_runner := Some \<lparr>num_runs = - 1\<rparr>\<rparr>,
      h_job_runner = \<lparr>num_runs = - 1\<rparr>\<rparr>
   = \<lparr>h_session = ex_db_c_start,
      h_executor = \<lparr>base = (), num_runs_per_dag = 1,
                    dags_to_watch = [(''dag_c'', \<lparr>waiting_for = 1, runs = []\<rparr>)],
                    job_runner = Some \<lparr>num_runs = - 1\<rparr>, log_warnings = []\<rparr>,
      h_job_runner = \<lparr>num_runs = - 1\<rparr>\<rparr>"
  by (simp add: trial_setup_def init_def reset_def reset_dag_def ex_db_c_start_def ex_dag_c_def
        ex_airflow_running_def ex_airflow_def Let_def)

lemma ex_run_job_finishes:
  "ex_run_job
     \<lparr>h_session = ex_db_c_start,
      h_executor = \<lparr>base = (), num_runs_per_dag = 1,
                    dags_to_watch = [(''dag_c'', \<lparr>waiting_for = 1, runs = []\<rparr>)],
                    job_runner = Some \<lparr>num_runs = - 1\<rparr>, log_warnings = []\<rparr>,
      h_job_runner = \<lparr>num_runs = - 1\<rparr>\<rparr>
   = Inr (\<lparr>h_session = ex_db_c_success,
           h_executor = \<lparr>base = (), num_runs_per_dag = 1, dags_to_watch = [],
                         job_runner = Some \<lparr>num_runs = 1\<rparr>,
                         log_warnings = [STOPPING_SCHEDULER]\<rparr>,
           h_job_runner = \<lparr>num_runs = - 1\<rparr>\<rparr>, 0)"
  by (simp add: ex_run_job_def change_state_def lookup_run_def DagRun_find_def all_success_def
        get_task_instances_def run_finished_def stop_scheduler_def ex_db_c_success_def Let_def
        ex_super_change_state_def)

text \<open>
  C4. The claim is that the call that empties the dictionary sets the maximum number of
  iterations of the loop that hosts the executor to one. The call sets \<^verbatim>\<open>num_runs\<close>
  of the job runner the executor was given on line 284. The scheduler that \<^verbatim>\<open>main\<close>
  runs is the job runner of lines 306 and 307, and line 308 does not give that one to
  the executor: it assigns \<^verbatim>\<open>executor.scheduler_job\<close>, which nothing reads. With one
  trial for one run of \<open>dag_c\<close>, in which the run finishes and its state change
  empties the dictionary, \<^verbatim>\<open>main\<close> ends with \<open>num_runs = 1\<close> in the job runner of the
  executor and \<open>num_runs = - 1\<close>, as constructed, in the job runner that ran.
\<close>

theorem stop_misses_the_running_job_runner:
  "main ex_airflow_running 1 1 False ''airflow.executors.local_executor.LocalExecutor''
     [''dag_c''] ex_db_c_start
   = Inr (\<lparr>h_session = ex_db_c_success,
           h_executor = \<lparr>base = (), num_runs_per_dag = 1, dags_to_watch = [],
                         job_runner = Some \<lparr>num_runs = 1\<rparr>,
                         log_warnings = [STOPPING_SCHEDULER]\<rparr>,
           h_job_runner = \<lparr>num_runs = - 1\<rparr>\<rparr>, [0])"
proof -
  have runner: "new_job_runner ex_airflow_running = \<lparr>num_runs = - 1\<rparr>"
    and run: "run_job ex_airflow_running = ex_run_job"
    and load: "get_executor_under_test ex_airflow_running
                 ''airflow.executors.local_executor.LocalExecutor'' = Inr ()"
    by (simp_all add: ex_airflow_running_def ex_airflow_def get_executor_under_test_def)
  have counts: "[0 ..< nat 1] = [0]" by simp
  show ?thesis
    by (simp only: main_def ex_setup_dag_c_start)
       (simp add: load runner counts run Let_def ex_first_trial_setup ex_run_job_finishes)
qed

end
